theory Spec2Isabelle
  imports Complex_Main
begin

section \<open>JavaScript numbers\<close>

text \<open>
  The tank computation of \<^verbatim>\<open>watertank.js\<close> divides by differences of configured
  values, so the special values of a JavaScript number matter. A number is \<open>NaN\<close>, an
  infinity (\<open>Inf True\<close> is \<open>+Infinity\<close>) or a finite value. Finite values are
  exact rationals: rounding and the sign of zero are not modelled.
\<close>

datatype jsnum = NaN | Inf bool | Fin rat

fun js_neg :: "jsnum \<Rightarrow> jsnum" where
  "js_neg NaN = NaN"
| "js_neg (Inf p) = Inf (\<not> p)"
| "js_neg (Fin a) = Fin (- a)"

fun js_add :: "jsnum \<Rightarrow> jsnum \<Rightarrow> jsnum" where
  "js_add NaN _ = NaN"
| "js_add _ NaN = NaN"
| "js_add (Inf p) (Inf q) = (if p = q then Inf p else NaN)"
| "js_add (Inf p) (Fin _) = Inf p"
| "js_add (Fin _) (Inf q) = Inf q"
| "js_add (Fin a) (Fin b) = Fin (a + b)"

definition js_sub :: "jsnum \<Rightarrow> jsnum \<Rightarrow> jsnum" where
  "js_sub a b = js_add a (js_neg b)"

fun js_mul :: "jsnum \<Rightarrow> jsnum \<Rightarrow> jsnum" where
  "js_mul NaN _ = NaN"
| "js_mul _ NaN = NaN"
| "js_mul (Inf p) (Inf q) = Inf (p = q)"
| "js_mul (Inf p) (Fin b) = (if b = 0 then NaN else Inf (p = (0 < b)))"
| "js_mul (Fin a) (Inf q) = (if a = 0 then NaN else Inf (q = (0 < a)))"
| "js_mul (Fin a) (Fin b) = Fin (a * b)"

fun js_div :: "jsnum \<Rightarrow> jsnum \<Rightarrow> jsnum" where
  "js_div NaN _ = NaN"
| "js_div _ NaN = NaN"
| "js_div (Inf p) (Inf q) = NaN"
| "js_div (Inf p) (Fin b) = Inf (p = (0 \<le> b))"
| "js_div (Fin a) (Inf q) = Fin 0"
| "js_div (Fin a) (Fin b) =
     (if b \<noteq> 0 then Fin (a / b) else if a = 0 then NaN else Inf (0 < a))"

text \<open>Comparisons with \<open>NaN\<close> are false, whichever side it stands on.\<close>

fun js_lt :: "jsnum \<Rightarrow> jsnum \<Rightarrow> bool" where
  "js_lt NaN _ = False"
| "js_lt _ NaN = False"
| "js_lt (Inf p) (Inf q) = (\<not> p \<and> q)"
| "js_lt (Inf p) (Fin _) = (\<not> p)"
| "js_lt (Fin _) (Inf q) = q"
| "js_lt (Fin a) (Fin b) = (a < b)"

definition js_gt :: "jsnum \<Rightarrow> jsnum \<Rightarrow> bool" where
  "js_gt a b = js_lt b a"

text \<open>\<open>undefined\<close> in arithmetic is \<open>NaN\<close>: a field that may be undefined is an option.\<close>

fun toNumber :: "jsnum option \<Rightarrow> jsnum" where
  "toNumber None = NaN"
| "toNumber (Some n) = n"

section \<open>Water tank (watertank.js)\<close>

definition USONICMINRANGE :: jsnum where "USONICMINRANGE = Fin 200"
definition USONICMAXRANGE :: jsnum where "USONICMAXRANGE = Fin 4500"

text \<open>
  The fields of a \<^verbatim>\<open>WaterTank\<close>. \<open>sensorHeight\<close> and \<open>minimumLevel\<close> are
  the numbers the constructor stores (millimetres); the loader of \<^verbatim>\<open>index.js\<close>
  hands it finite numbers. A pin outside 0..26 is stored as undefined.
  \<open>waterlevel\<close> and \<open>percentage\<close> are undefined until a reading succeeds.
\<close>

record watertank =
  sensorHeight :: rat
  minimumLevel :: rat
  GPIO_trigPin :: "nat option"
  GPIO_echoPin :: "nat option"
  waterlevel :: "jsnum option"
  percentage :: "jsnum option"

text \<open>
  One chunk written by the \<^verbatim>\<open>usonic_measure\<close> helper, as the \<^verbatim>\<open>data\<close> handler
  classifies it: the text \<^verbatim>\<open>OUT OF RANGE\<close>, a line \<^verbatim>\<open>Distance: x cm\<close> whose
  second word multiplied by 10 is the number carried here in centimetres (\<open>NaN\<close> when
  the word is not a number), or any other text.
\<close>

datatype usonicData = OutOfRange | Distance jsnum | OtherText

definition scaleValue :: "jsnum \<Rightarrow> jsnum \<Rightarrow> jsnum \<Rightarrow> jsnum \<Rightarrow> jsnum \<Rightarrow> jsnum" where
  "scaleValue val sourceRangeMin sourceRangeMax targetRangeMin targetRangeMax =
     (let v1 = (if js_lt val sourceRangeMin then sourceRangeMin else val);
          v2 = (if js_gt v1 sourceRangeMax then sourceRangeMax else v1)
      in js_add
           (js_div (js_mul (js_sub v2 sourceRangeMin) (js_sub targetRangeMax targetRangeMin))
                   (js_sub sourceRangeMax sourceRangeMin))
           targetRangeMin)"

text \<open>
  The \<^verbatim>\<open>data\<close> handler of \<^verbatim>\<open>#readUsonicSensor\<close>: the pair is
  (\<open>actualDistance\<close>, \<open>averageDistance\<close>), both starting at 0.
\<close>

definition onData :: "rat \<Rightarrow> usonicData \<Rightarrow> jsnum \<times> jsnum \<Rightarrow> jsnum \<times> jsnum" where
  "onData height d acc =
     (let actual0 = fst acc;
          actual =
            (case d of
               OutOfRange \<Rightarrow> USONICMINRANGE
             | Distance cm \<Rightarrow>
                 (let a0 = js_mul cm (Fin 10);
                      a1 = (if js_lt a0 USONICMINRANGE then USONICMINRANGE else a0);
                      a2 = (if js_gt a1 USONICMAXRANGE then USONICMAXRANGE else a1)
                  in if js_gt a2 (Fin height) then Fin height else a2)
             | OtherText \<Rightarrow> actual0)
      in (actual, js_add (snd acc) actual))"

text \<open>
  \<^verbatim>\<open>#readUsonicSensor\<close> for the chunks one helper run printed
  (\<^verbatim>\<open>USONICREADINGS\<close> is 1, so the average divides by 1). A tank without both
  pins returns at once; a run that left either distance at 0 changes nothing and sends
  no event.
\<close>

definition usonicDistances :: "usonicData list \<Rightarrow> watertank \<Rightarrow> jsnum \<times> jsnum" where
  "usonicDistances chunks t = fold (onData (sensorHeight t)) chunks (Fin 0, Fin 0)"

definition readingSucceeds :: "usonicData list \<Rightarrow> watertank \<Rightarrow> bool" where
  "readingSucceeds chunks t \<longleftrightarrow>
     GPIO_trigPin t \<noteq> None \<and> GPIO_echoPin t \<noteq> None
     \<and> snd (usonicDistances chunks t) \<noteq> Fin 0 \<and> fst (usonicDistances chunks t) \<noteq> Fin 0"

definition readUsonicSensor :: "usonicData list \<Rightarrow> watertank \<Rightarrow> watertank" where
  "readUsonicSensor chunks t =
     (if readingSucceeds chunks t then
        (let averageDistance = js_div (snd (usonicDistances chunks t)) (Fin 1);
             usable = js_sub (Fin (sensorHeight t)) (Fin (minimumLevel t));
             wl = js_sub usable
                    (scaleValue averageDistance USONICMINRANGE usable (Fin 0) usable);
             p0 = js_mul (js_div wl usable) (Fin 100);
             p1 = (if js_lt p0 (Fin 0) then Fin 0 else p0);
             p2 = (if js_gt p1 (Fin 100) then Fin 100 else p1)
         in t\<lparr>waterlevel := Some wl, percentage := Some p2\<rparr>)
      else t)"

section \<open>Valve (valve.js)\<close>

text \<open>
  A valve keeps its relay pin (undefined when the configured pin is not a number in
  0..26), the second it was opened (undefined while closed) and the water counted since.
  \<open>waterAmount\<close> starts undefined in the source; \<^verbatim>\<open>open()\<close> sets it to 0 before
  anything reads it, so it is a number here.
\<close>

record valve =
  GPIO_ValvePin :: "nat option"
  valveOpenedTime :: "int option"
  waterAmount :: rat

definition newValve :: "int \<Rightarrow> valve" where
  "newValve relayPin =
     \<lparr>GPIO_ValvePin = (if 0 \<le> relayPin \<and> relayPin \<le> 26 then Some (nat relayPin) else None),
      valveOpenedTime = None, waterAmount = 0\<rparr>"

definition isOpen :: "valve \<Rightarrow> bool" where
  "isOpen v \<longleftrightarrow> valveOpenedTime v \<noteq> None"

datatype valveStatus = OPENED | CLOSED

section \<open>Irrigation system (system.js)\<close>

subsection \<open>Data\<close>

text \<open>
  Values a HomeKit callback can hand to a command: a boolean, a number (the
  characteristic constants \<^verbatim>\<open>ACTIVE\<close>, \<^verbatim>\<open>CONFIGURED\<close> are 1 and
  \<^verbatim>\<open>INACTIVE\<close>, \<^verbatim>\<open>NOT_CONFIGURED\<close> are 0), a string, or undefined.
\<close>

datatype jsvalue = JBool bool | JNum int | JStr string | JUndefined

text \<open>
  The argument of \<^verbatim>\<open>setZoneRuntime\<close>: \<open>NotANumber\<close> stands for every value on
  which \<^verbatim>\<open>isNaN\<close> is true, \<open>Seconds n\<close> for the integer \<open>n\<close>. Fractions,
  infinities and non-numbers that coerce to a number are not modelled.
\<close>

datatype runtimeValue = NotANumber | Seconds int

record flow =
  time :: int
  rate :: rat
  volume :: rat

text \<open>
  One zone: the entry of \<^verbatim>\<open>deviceData.zones\<close> (\<open>uuid\<close>, \<open>name\<close>,
  \<open>enabled\<close>, \<open>runtime\<close>) together with its entry of \<^verbatim>\<open>#zones\<close>: the
  characteristics of its HomeKit service, its valves, its interval timer and the totals
  of the run. \<open>timer\<close> holds the \<^verbatim>\<open>endTime\<close> the interval's callback closed over,
  and \<open>timerStart\<close> the clock value at which \<^verbatim>\<open>setInterval\<close> created that timer
  (it is read only while \<open>timer\<close> is set).
  A characteristic holds the value last given to \<^verbatim>\<open>updateCharacteristic\<close>.

  A zone is named by its position in \<^verbatim>\<open>deviceData.zones\<close>, which is how
  \<^verbatim>\<open>addServices\<close> binds every callback; the entry \<^verbatim>\<open>#zones[zone.uuid]\<close> is the
  one at the same position. A zone argument that names no configured zone is a position
  out of range. Every configured zone is taken to have a \<^verbatim>\<open>relayPin\<close> entry, so
  that \<^verbatim>\<open>addServices\<close> creates its \<^verbatim>\<open>#zones\<close> entry.
\<close>

record zone =
  uuid :: string
  name :: string
  enabled :: bool
  runtime :: int
  Active :: bool
  InUse :: bool
  RemainingDuration :: int
  SetDuration :: int
  IsConfigured :: bool
  ConfiguredName :: string
  valves :: "valve list"
  timer :: "int option"
  timerStart :: int
  totalwater :: rat
  totalduration :: int

datatype programMode = NO_PROGRAM_SCHEDULED | PROGRAM_SCHEDULED_MANUAL_MODE

datatype requestType = TypeSystem | TypeValve | TypeSwitch

datatype reqContext = IrrigationService | DeviceZone nat

record activeCheck =
  ac_context :: reqContext
  ac_value :: jsvalue
  ac_type :: requestType
  takeaction :: bool

text \<open>
  The callbacks handed to \<^verbatim>\<open>setTimeout\<close> with a delay of 500 ms by
  \<^verbatim>\<open>setZoneActive\<close> and by the debounce callback. \<open>pending\<close> keeps those that
  have not run yet, each with the clock value at which it is due.
\<close>

datatype timeout = PowerOffRevert nat | SuppressedRevert reqContext

text \<open>The lines written at the levels info, success and warn.\<close>

datatype logline =
    PowerTurned bool
  | WateringResumed
  | ZoneTurnedOn string
  | ZoneTurnedOff string
  | LeakSuspected
  | LeakCleared

text \<open>
  The state of an \<^verbatim>\<open>IrrigationSystem\<close>: the fields of \<^verbatim>\<open>deviceData\<close> it reads,
  the characteristics of the irrigation service, and its own fields.
  \<open>leakSensorService\<close> is undefined or holds the value of its
  \<^verbatim>\<open>LeakDetected\<close> characteristic; \<open>WaterLevel\<close> is undefined until it is first
  updated. \<open>maxRuntime\<close> is only handed to \<^verbatim>\<open>setProps\<close> as the
  \<^verbatim>\<open>maxValue\<close> of the two duration characteristics of every zone; HAP-NodeJS, which
  is not part of the sources, enforces it on what a HomeKit client writes.
\<close>

record system =
  power :: bool
  pauseTimeout :: int
  maxRuntime :: int
  waterLeakAlert :: bool
  zones :: "zone list"
  tanks :: "watertank list"
  sysActive :: bool
  sysInUse :: bool
  ProgramMode :: programMode
  WaterLevel :: "jsnum option"
  leakSensorService :: "bool option"
  lastValveClose :: int
  flowData :: "flow list"
  leakDetected :: bool
  activeCheck :: "activeCheck list"
  activeCheckTimer :: bool
  pending :: "(int \<times> timeout) list"
  log :: "logline list"

definition WATERLEAKTIMEOUT :: int where "WATERLEAKTIMEOUT = 10000"
definition FLOWDATABUFFER :: int where "FLOWDATABUFFER = 30000"

text \<open>\<^verbatim>\<open>Math.floor(Date.now() / 1000)\<close>, for the clock \<open>now\<close> in milliseconds.\<close>

definition nowSec :: "int \<Rightarrow> int" where
  "nowSec now = now div 1000"

definition updZone :: "nat \<Rightarrow> (zone \<Rightarrow> zone) \<Rightarrow> system \<Rightarrow> system" where
  "updZone zi f s = s\<lparr>zones := (zones s)[zi := f (zones s ! zi)]\<rparr>"

definition updValve :: "nat \<Rightarrow> nat \<Rightarrow> (valve \<Rightarrow> valve) \<Rightarrow> system \<Rightarrow> system" where
  "updValve zi vi g s =
     updZone zi (\<lambda>z. z\<lparr>valves := (valves z)[vi := g (valves z ! vi)]\<rparr>) s"


definition numberRunningZones :: "system \<Rightarrow> nat" where
  "numberRunningZones s = length (filter Active (zones s))"

definition numberEnabledZones :: "system \<Rightarrow> nat" where
  "numberEnabledZones s = length (filter IsConfigured (zones s))"

subsection \<open>Events (messageServices)\<close>

text \<open>
  A message on the event emitter. A valve event carries the position of the zone that
  owns the valve in place of the valve's uuid: the uuids are random and distinct, so the
  search of \<^verbatim>\<open>messageServices\<close> through the zones' valves finds the owner.
\<close>

datatype eventTag = WATERLEVEL | VALVEEVENT | FLOWEVENT

datatype message =
    WaterLevelData
  | FlowData flow
  | ValveData nat valveStatus int rat int

text \<open>
  The event tags as the classes declare them. \<^verbatim>\<open>class Valve\<close> declares
  \<^verbatim>\<open>FLOWEVENT\<close> and \<^verbatim>\<open>VALVEEVENT\<close> and no \<^verbatim>\<open>WATERLEVEL\<close>, so
  \<^verbatim>\<open>Valve.WATERLEVEL\<close> is undefined; the tag of level events is
  \<^verbatim>\<open>WaterTank.WATERLEVEL\<close>.
\<close>

definition Valve_FLOWEVENT :: "eventTag option" where "Valve_FLOWEVENT = Some FLOWEVENT"
definition Valve_VALVEEVENT :: "eventTag option" where "Valve_VALVEEVENT = Some VALVEEVENT"
definition Valve_WATERLEVEL :: "eventTag option" where "Valve_WATERLEVEL = None"
definition WaterTank_WATERLEVEL :: "eventTag option" where "WaterTank_WATERLEVEL = Some WATERLEVEL"

text \<open>The body of the branch \<^verbatim>\<open>type === Valve.WATERLEVEL\<close>.\<close>

definition totalPercentage :: "watertank list \<Rightarrow> jsnum" where
  "totalPercentage ts =
     (let total = fold (\<lambda>tank acc. js_add acc (toNumber (percentage tank))) ts (Fin 0)
      in if js_gt total (Fin 100) then Fin 100 else total)"

definition onWaterLevel :: "system \<Rightarrow> system" where
  "onWaterLevel s = s\<lparr>WaterLevel := Some (totalPercentage (tanks s))\<rparr>"

text \<open>
  The body of the branch for flow events, in three named parts and the branch itself:
  the sample is pushed and then at most one sample is shifted out; the percentage of
  samples with a non-zero volume, \<^verbatim>\<open>(nonZeroVolume / this.flowData.length) * 100\<close>,
  in exact rationals; and the test on the time since the last valve closed. The leak
  test runs only with a leak sensor service.
\<close>

definition pushFlow :: "flow \<Rightarrow> flow list \<Rightarrow> flow list" where
  "pushFlow m fd =
     (let fd0 = fd @ [m]
      in if time m - time (hd fd0) > FLOWDATABUFFER then tl fd0 else fd0)"

definition nonZeroVolume :: "flow list \<Rightarrow> nat" where
  "nonZeroVolume fd = length (filter (\<lambda>f. volume f \<noteq> 0) fd)"

definition nonZeroPercent :: "flow list \<Rightarrow> rat" where
  "nonZeroPercent fd = (of_nat (nonZeroVolume fd) / of_nat (length fd)) * 100"

definition sinceLastClose :: "int \<Rightarrow> system \<Rightarrow> bool" where
  "sinceLastClose now s \<longleftrightarrow>
     lastValveClose s = 0
     \<or> (lastValveClose s \<noteq> 0 \<and> nowSec now - lastValveClose s > WATERLEAKTIMEOUT)"

definition onFlow :: "flow \<Rightarrow> int \<Rightarrow> system \<Rightarrow> system" where
  "onFlow m now s =
     (let s1 = s\<lparr>flowData := pushFlow m (flowData s)\<rparr>
      in case leakSensorService s1 of
           None \<Rightarrow> s1
         | Some _ \<Rightarrow>
             (let s2 =
                    (if numberRunningZones s1 = 0 \<and> nonZeroPercent (flowData s1) > 80
                     then
                       (if sinceLastClose now s1
                        then
                          (if leakDetected s1 = False then
                             s1\<lparr>leakDetected := True,
                                leakSensorService :=
                                  (if waterLeakAlert s1 then Some True else leakSensorService s1),
                                log := log s1 @ [LeakSuspected]\<rparr>
                           else s1)
                        else s1)
                     else s1);
                  s3 =
                    (if numberRunningZones s2 = 0 \<and> nonZeroVolume (flowData s1) = 0 then
                       (if leakDetected s2 = True then
                          s2\<lparr>leakDetected := False,
                             leakSensorService := Some False,
                             log := log s2 @ [LeakCleared]\<rparr>
                        else s2)
                     else s2)
              in s3))"

text \<open>The body of the branch for valve events.\<close>

definition onValveEvent :: "nat \<Rightarrow> valveStatus \<Rightarrow> int \<Rightarrow> rat \<Rightarrow> int \<Rightarrow> system \<Rightarrow> system" where
  "onValveEvent zi status t water duration s =
     (if zi < length (zones s) then
        (case status of
           OPENED \<Rightarrow>
             (if timer (zones s ! zi) = None
              then s\<lparr>log := log s @ [ZoneTurnedOn (name (zones s ! zi))]\<rparr>
              else s)
         | CLOSED \<Rightarrow>
             (let s1 = s\<lparr>lastValveClose := t\<rparr>;
                  s2 = updZone zi (\<lambda>z. z\<lparr>totalwater := totalwater z + water,
                                           totalduration := totalduration z + duration\<rparr>) s1
              in if timer (zones s2 ! zi) = None
                 then s2\<lparr>log := log s2 @ [ZoneTurnedOff (name (zones s2 ! zi))]\<rparr>
                 else s2))
      else s)"

definition messageServices :: "eventTag \<Rightarrow> message \<Rightarrow> int \<Rightarrow> system \<Rightarrow> system" where
  "messageServices tag m now s =
     (let s1 = (if Some tag = Valve_WATERLEVEL then onWaterLevel s else s);
          s2 = (if Some tag = Valve_FLOWEVENT
                then (case m of FlowData f \<Rightarrow> onFlow f now s1 | _ \<Rightarrow> s1)
                else s1);
          s3 = (if Some tag = Valve_VALVEEVENT
                then (case m of
                        ValveData zi status t water duration \<Rightarrow>
                          onValveEvent zi status t water duration s2
                      | _ \<Rightarrow> s2)
                else s2)
      in s3)"

text \<open>
  The listener every valve with a relay pin registers for flow events: an open valve adds
  the sample's volume to its count.
\<close>

definition valveFlowListener :: "flow \<Rightarrow> valve \<Rightarrow> valve" where
  "valveFlowListener f v =
     (if GPIO_ValvePin v \<noteq> None \<and> valveOpenedTime v \<noteq> None
      then v\<lparr>waterAmount := waterAmount v + volume f\<rparr> else v)"

text \<open>
  \<^verbatim>\<open>emit\<close>: the listeners run at once, in the order they were registered. The valves
  register theirs when the zones are built, before the system registers its three.
\<close>

definition emit :: "eventTag \<Rightarrow> message \<Rightarrow> int \<Rightarrow> system \<Rightarrow> system" where
  "emit tag m now s =
     (let s1 = (case (tag, m) of
                  (FLOWEVENT, FlowData f) \<Rightarrow>
                    s\<lparr>zones := map (\<lambda>z. z\<lparr>valves := map (valveFlowListener f) (valves z)\<rparr>)
                                   (zones s)\<rparr>
                | _ \<Rightarrow> s)
      in messageServices tag m now s1)"

subsection \<open>Valve operations\<close>

definition valve_open :: "nat \<Rightarrow> nat \<Rightarrow> int \<Rightarrow> system \<Rightarrow> system" where
  "valve_open zi vi now s =
     (case GPIO_ValvePin (valves (zones s ! zi) ! vi) of
        None \<Rightarrow> s
      | Some pin \<Rightarrow>
          emit VALVEEVENT (ValveData zi OPENED (nowSec now) 0 0) now
            (updValve zi vi
               (\<lambda>v. v\<lparr>valveOpenedTime := Some (nowSec now), waterAmount := 0\<rparr>) s))"

definition valve_close :: "nat \<Rightarrow> nat \<Rightarrow> int \<Rightarrow> system \<Rightarrow> system" where
  "valve_close zi vi now s =
     (let v = valves (zones s ! zi) ! vi
      in case GPIO_ValvePin v of
           None \<Rightarrow> s
         | Some pin \<Rightarrow>
             (let duration = (case valveOpenedTime v of
                                Some t \<Rightarrow> nowSec now - t
                              | None \<Rightarrow> 0);
                  s1 = emit VALVEEVENT
                         (ValveData zi CLOSED (nowSec now) (waterAmount v) duration) now s
              in updValve zi vi (\<lambda>v. v\<lparr>waterAmount := 0, valveOpenedTime := None\<rparr>) s1))"

text \<open>\<^verbatim>\<open>valves.forEach((valve) => { if (valve.isOpen() === true) valve.close() })\<close>\<close>

definition closeOpenValves :: "nat \<Rightarrow> int \<Rightarrow> system \<Rightarrow> system" where
  "closeOpenValves zi now s =
     fold (\<lambda>vi s'. if isOpen (valves (zones s' ! zi) ! vi) then valve_close zi vi now s' else s')
       [0..<length (valves (zones s ! zi))] s"

subsection \<open>Zone commands\<close>

definition isActivate :: "jsvalue \<Rightarrow> bool" where
  "isActivate v \<longleftrightarrow> v = JNum 1 \<or> v = JBool True"

definition isDeactivate :: "jsvalue \<Rightarrow> bool" where
  "isDeactivate v \<longleftrightarrow> v = JNum 0 \<or> v = JBool False"

text \<open>
  The guard that opens \<^verbatim>\<open>setZoneActive\<close> (and, without the test of \<open>enabled\<close>,
  \<^verbatim>\<open>setZoneEnabled\<close>): the value is a boolean or one of the two constants, and the
  zone is known.
\<close>

definition validSwitchValue :: "jsvalue \<Rightarrow> bool" where
  "validSwitchValue v = (case v of JBool _ \<Rightarrow> True | JNum n \<Rightarrow> n = 1 \<or> n = 0 | _ \<Rightarrow> False)"

definition zoneGuard :: "nat \<Rightarrow> jsvalue \<Rightarrow> system \<Rightarrow> bool" where
  "zoneGuard zi v s \<longleftrightarrow> zi < length (zones s) \<and> validSwitchValue v \<and> enabled (zones s ! zi)"

text \<open>The third branch of \<^verbatim>\<open>setZoneActive\<close>: turning a zone off while powered on.\<close>

definition deactivateZone :: "nat \<Rightarrow> int \<Rightarrow> system \<Rightarrow> system" where
  "deactivateZone zi now s =
     closeOpenValves zi now
       (updZone zi (\<lambda>z. z\<lparr>timer := None, Active := False, InUse := False,
                             RemainingDuration := 0\<rparr>) s)"

text \<open>
  \<^verbatim>\<open>setZoneActive(zone, INACTIVE)\<close>, the call the source makes from inside
  \<^verbatim>\<open>setZoneActive\<close>, \<^verbatim>\<open>setPower\<close>, \<^verbatim>\<open>setZoneEnabled\<close> and the interval
  callback. It passes the guard and can only take the third branch.
\<close>

definition setZoneActive_INACTIVE :: "nat \<Rightarrow> int \<Rightarrow> system \<Rightarrow> system" where
  "setZoneActive_INACTIVE zi now s =
     (if \<not> zoneGuard zi (JNum 0) s then s
      else if power s = True then deactivateZone zi now s
      else s)"

text \<open>
  \<^verbatim>\<open>zones.forEach\<close> over the zones whose \<^verbatim>\<open>Active\<close> characteristic is
  \<^verbatim>\<open>ACTIVE\<close>, turning each off: the loop of \<^verbatim>\<open>setZoneActive\<close> and of
  \<^verbatim>\<open>setPower\<close>.
\<close>

definition cancelRunningZones :: "int \<Rightarrow> system \<Rightarrow> system" where
  "cancelRunningZones now s =
     fold (\<lambda>j s'. if Active (zones s' ! j) then setZoneActive_INACTIVE j now s' else s')
       [0..<length (zones s)] s"

text \<open>The first branch of \<^verbatim>\<open>setZoneActive\<close>: turning a zone on while powered on.\<close>

definition activateZone :: "nat \<Rightarrow> int \<Rightarrow> system \<Rightarrow> system" where
  "activateZone zi now s =
     (let s1 = (if numberRunningZones s \<noteq> 0 then cancelRunningZones now s else s);
          s2 = updZone zi (\<lambda>z. z\<lparr>totalwater := 0, totalduration := 0\<rparr>) s1;
          s3 = (if 0 < length (valves (zones s2 ! zi)) then valve_open zi 0 now s2 else s2);
          s4 = updZone zi (\<lambda>z. z\<lparr>Active := True, InUse := True,
                                   RemainingDuration := SetDuration z\<rparr>) s3;
          endTime = nowSec now + SetDuration (zones s4 ! zi)
      in updZone zi (\<lambda>z. z\<lparr>timer := Some endTime, timerStart := now\<rparr>) s4)"

text \<open>
  \<^verbatim>\<open>setZoneActive\<close>. The three branches are three \<^verbatim>\<open>if\<close> statements in a row.
  The second one (powered off) only schedules a timeout.
\<close>

definition setZoneActive :: "nat \<Rightarrow> jsvalue \<Rightarrow> int \<Rightarrow> system \<Rightarrow> system" where
  "setZoneActive zi v now s =
     (if \<not> zoneGuard zi v s then s
      else
        (let s1 = (if power s = True \<and> isActivate v then activateZone zi now s else s);
             s2 = (if power s1 = False \<and> isActivate v
                   then s1\<lparr>pending := pending s1 @ [(now + 500, PowerOffRevert zi)]\<rparr>
                   else s1);
             s3 = (if power s2 = True \<and> isDeactivate v then deactivateZone zi now s2 else s2)
         in s3))"


definition setZoneName :: "nat \<Rightarrow> jsvalue \<Rightarrow> system \<Rightarrow> system" where
  "setZoneName zi v s =
     (case v of
        JStr n \<Rightarrow>
          (if n = [] \<or> \<not> zi < length (zones s) then s
           else updZone zi (\<lambda>z. z\<lparr>name := n, ConfiguredName := n\<rparr>) s)
      | _ \<Rightarrow> s)"

definition setZoneEnabled :: "nat \<Rightarrow> jsvalue \<Rightarrow> int \<Rightarrow> system \<Rightarrow> system" where
  "setZoneEnabled zi v now s =
     (if \<not> validSwitchValue v \<or> \<not> zi < length (zones s) then s
      else
        (let s1 = (if (v = JNum 0 \<or> v = JBool False) \<and> Active (zones s ! zi)
                   then setZoneActive_INACTIVE zi now s else s);
             on = (v = JNum 1 \<or> v = JBool True)
         in updZone zi (\<lambda>z. z\<lparr>enabled := on, IsConfigured := on\<rparr>) s1))"

definition setZoneRuntime :: "nat \<Rightarrow> runtimeValue \<Rightarrow> system \<Rightarrow> system" where
  "setZoneRuntime zi v s =
     (case v of
        NotANumber \<Rightarrow> s
      | Seconds n \<Rightarrow>
          (if \<not> zi < length (zones s) then s
           else updZone zi (\<lambda>z. z\<lparr>runtime := n, SetDuration := n\<rparr>) s))"

subsection \<open>The countdown of a running zone\<close>

text \<open>
  The end time of valve \<open>index\<close> as the interval callback computes it from the zone's
  \<^verbatim>\<open>endTime\<close>, its \<^verbatim>\<open>SetDuration\<close> \<open>T\<close> and its number of valves \<open>N\<close>.
\<close>

definition valveEndTime :: "int \<Rightarrow> int \<Rightarrow> nat \<Rightarrow> nat \<Rightarrow> rat" where
  "valveEndTime endTime T N index =
     of_int endTime - (of_int T / of_nat N) * (of_nat N - of_nat index - 1)"

text \<open>The callback of \<^verbatim>\<open>valves.forEach\<close> inside the interval callback.\<close>

definition tickValve :: "int \<Rightarrow> nat \<Rightarrow> int \<Rightarrow> nat \<Rightarrow> system \<Rightarrow> system" where
  "tickValve endTime zi now index s =
     (let z = zones s ! zi; N = length (valves z)
      in if isOpen (valves z ! index) then
           (if valveEndTime endTime (SetDuration z) N index \<le> of_int (nowSec now)
               \<and> int index < int N - 1
            then valve_open zi (index + 1) now (valve_close zi index now s)
            else s)
         else s)"

text \<open>
  The interval callback of zone \<open>zi\<close> (every 1000 ms while \<open>timer\<close> is set). At
  \<open>nowSec now = endTime\<close> neither \<^verbatim>\<open>if\<close> applies.
\<close>

definition zoneRunningTimer :: "nat \<Rightarrow> int \<Rightarrow> system \<Rightarrow> system" where
  "zoneRunningTimer zi now s =
     (if \<not> zi < length (zones s) then s
      else
        (case timer (zones s ! zi) of
           None \<Rightarrow> s
         | Some endTime \<Rightarrow>
             (let s1 =
                    (if nowSec now < endTime then
                       fold (tickValve endTime zi now) [0..<length (valves (zones s ! zi))]
                         (updZone zi (\<lambda>z. z\<lparr>RemainingDuration := endTime - nowSec now\<rparr>) s)
                     else s);
                  s2 = (if nowSec now > endTime then setZoneActive zi (JNum 0) now s1 else s1)
              in s2)))"

subsection \<open>Power and pause\<close>

definition isOffValue :: "jsvalue \<Rightarrow> bool" where
  "isOffValue v \<longleftrightarrow> v = JStr ''off'' \<or> v = JStr ''OFF'' \<or> v = JBool False \<or> v = JNum 0"

definition isOnValue :: "jsvalue \<Rightarrow> bool" where
  "isOnValue v \<longleftrightarrow> v = JStr ''on'' \<or> v = JStr ''ON'' \<or> v = JBool True \<or> v = JNum 1"

text \<open>
  \<^verbatim>\<open>setPower\<close>. Its last statements are \<^verbatim>\<open>this.set({ power: ... })\<close> and the
  line for the log.

  Modelled from the spec: \<^verbatim>\<open>set\<close> is a method of \<^verbatim>\<open>HomeKitDevice.js\<close>, which is
  not among the sources. The spec gives it as the persistence sink that writes a snapshot
  back after a mutation, and the listener of \<^verbatim>\<open>index.js\<close> for it only rewrites the
  configuration file, so it changes nothing of the state here.
\<close>

definition setPower :: "jsvalue \<Rightarrow> int \<Rightarrow> system \<Rightarrow> system" where
  "setPower v now s =
     (let s0 = s\<lparr>sysInUse := False\<rparr>;
          s1 = (if isOffValue v
                then (cancelRunningZones now s0)
                       \<lparr>ProgramMode := NO_PROGRAM_SCHEDULED, sysActive := False, power := False\<rparr>
                else s0);
          s2 = (if isOnValue v
                then s1\<lparr>ProgramMode := PROGRAM_SCHEDULED_MANUAL_MODE, sysActive := True,
                        power := True\<rparr>
                else s1)
      in s2\<lparr>log := log s2 @ [PowerTurned (power s2)]\<rparr>)"

text \<open>The callback of the 5 s interval that ends a pause.\<close>

definition pauseTimer :: "int \<Rightarrow> system \<Rightarrow> system" where
  "pauseTimer now s =
     (if pauseTimeout s \<noteq> 0 \<and> nowSec now \<ge> pauseTimeout s
      then (let s1 = setPower (JBool True) now s in s1\<lparr>log := log s1 @ [WateringResumed]\<rparr>)
      else s)"

subsection \<open>Debounce of Active requests\<close>

text \<open>
  \<^verbatim>\<open>#processActiveCharacteristic\<close> pushes the request and, when no timeout is
  pending, starts the 500 ms timeout.
\<close>

definition processActiveCharacteristic ::
    "reqContext \<Rightarrow> jsvalue \<Rightarrow> requestType \<Rightarrow> system \<Rightarrow> system" where
  "processActiveCharacteristic ctx v ty s =
     s\<lparr>activeCheck := activeCheck s
          @ [\<lparr>ac_context = ctx, ac_value = v, ac_type = ty, takeaction = True\<rparr>],
       activeCheckTimer := True\<rparr>"

text \<open>
  What the timeout's callback does for one request, in the order of the source: the two
  filters on \<open>takeaction\<close>, then the calls. Beside the state it returns the calls it
  made, so that a theorem can say which actions ran.
\<close>

datatype call =
    CallSetPower jsvalue
  | CallSetZoneActive reqContext jsvalue
  | ScheduleRevert reqContext

definition processRequest ::
    "nat \<Rightarrow> nat \<Rightarrow> int \<Rightarrow> activeCheck \<Rightarrow> system \<times> call list \<Rightarrow> system \<times> call list" where
  "processRequest systemCount valveCount now ac acc =
     (let s = fst acc; calls = snd acc;
          t1 = (if ac_type ac = TypeSystem \<and> valveCount = 1 then False else takeaction ac);
          t2 = (if ac_type ac = TypeValve \<and> systemCount = 1
                   \<and> numberEnabledZones s = valveCount then False else t1);
          isSys = (ac_type ac = TypeSystem \<or> ac_type ac = TypeSwitch);
          accA = (if isSys \<and> t2 = True
                  then (setPower (ac_value ac) now s, calls @ [CallSetPower (ac_value ac)])
                  else (s, calls));
          sA = fst accA; callsA = snd accA
      in if ac_type ac = TypeValve \<and> t2 = True then
           ((case ac_context ac of
               DeviceZone zi \<Rightarrow> setZoneActive zi (ac_value ac) now sA
             | IrrigationService \<Rightarrow> sA),
            callsA @ [CallSetZoneActive (ac_context ac) (ac_value ac)])
         else if ac_type ac = TypeValve \<and> t2 = False then
           (sA\<lparr>pending := pending sA @ [(now + 500, SuppressedRevert (ac_context ac))]\<rparr>,
            callsA @ [ScheduleRevert (ac_context ac)])
         else accA)"

definition activeCheckTimeout :: "int \<Rightarrow> system \<Rightarrow> system \<times> call list" where
  "activeCheckTimeout now s =
     (let systemCount =
            length (filter (\<lambda>ac. ac_type ac = TypeSystem \<or> ac_type ac = TypeSwitch) (activeCheck s));
          valveCount = length (filter (\<lambda>ac. ac_type ac = TypeValve) (activeCheck s));
          r = fold (processRequest systemCount valveCount now) (activeCheck s) (s, [])
      in ((fst r)\<lparr>activeCheck := [], activeCheckTimer := False\<rparr>, snd r))"

subsection \<open>Tank readings\<close>

text \<open>
  One run of \<^verbatim>\<open>#readUsonicSensor\<close> on tank \<open>ti\<close>; a successful reading emits the
  level event.
\<close>

definition tankReading :: "nat \<Rightarrow> usonicData list \<Rightarrow> int \<Rightarrow> system \<Rightarrow> system" where
  "tankReading ti chunks now s =
     (if \<not> ti < length (tanks s) then s
      else
        (let s1 = s\<lparr>tanks := (tanks s)[ti := readUsonicSensor chunks (tanks s ! ti)]\<rparr>
         in if readingSucceeds chunks (tanks s ! ti)
            then emit WATERLEVEL WaterLevelData now s1 else s1))"

subsection \<open>Construction (addServices) and the steps of the system\<close>

datatype relayPin = Pin int | Pins "int list"

record zoneConfig =
  zc_uuid :: string
  zc_name :: string
  zc_enabled :: bool
  zc_runtime :: int
  zc_relayPin :: relayPin

record tankConfig =
  tc_enabled :: bool
  tc_sensorTrigPin :: "int option"
  tc_sensorEchoPin :: "int option"
  tc_sensorHeight :: rat
  tc_minimumLevel :: rat

record deviceData =
  dd_power :: bool
  dd_pauseTimeout :: int
  dd_maxRuntime :: int
  dd_zones :: "zoneConfig list"
  dd_tanks :: "tankConfig list"
  dd_leakSensor :: bool
  dd_sensorFlowPin :: "nat option"
  dd_waterLeakAlert :: bool

definition validPin :: "int option \<Rightarrow> nat option" where
  "validPin p = (case p of
                   None \<Rightarrow> None
                 | Some n \<Rightarrow> if 0 \<le> n \<and> n \<le> 26 then Some (nat n) else None)"

definition newWaterTank :: "tankConfig \<Rightarrow> watertank" where
  "newWaterTank tc =
     \<lparr>sensorHeight = tc_sensorHeight tc, minimumLevel = tc_minimumLevel tc,
      GPIO_trigPin = validPin (tc_sensorTrigPin tc),
      GPIO_echoPin = validPin (tc_sensorEchoPin tc),
      waterlevel = None, percentage = None\<rparr>"

definition newZone :: "zoneConfig \<Rightarrow> zone" where
  "newZone zc =
     \<lparr>uuid = zc_uuid zc, name = zc_name zc, enabled = zc_enabled zc, runtime = zc_runtime zc,
      Active = False, InUse = False, RemainingDuration = 0, SetDuration = zc_runtime zc,
      IsConfigured = zc_enabled zc, ConfiguredName = zc_name zc,
      valves = (case zc_relayPin zc of Pin p \<Rightarrow> [newValve p] | Pins ps \<Rightarrow> map newValve ps),
      timer = None, timerStart = 0, totalwater = 0, totalduration = 0\<rparr>"

definition addServices :: "deviceData \<Rightarrow> system" where
  "addServices d =
     \<lparr>power = dd_power d, pauseTimeout = dd_pauseTimeout d, maxRuntime = dd_maxRuntime d,
      waterLeakAlert = dd_waterLeakAlert d,
      zones = map newZone (dd_zones d),
      tanks = map newWaterTank
                (filter (\<lambda>tc. tc_enabled tc \<and> tc_sensorEchoPin tc \<noteq> None
                               \<and> tc_sensorTrigPin tc \<noteq> None) (dd_tanks d)),
      sysActive = False, sysInUse = False, ProgramMode = NO_PROGRAM_SCHEDULED,
      WaterLevel = None,
      leakSensorService =
        (if dd_leakSensor d \<and> dd_sensorFlowPin d \<noteq> None then Some False else None),
      lastValveClose = 0, flowData = [], leakDetected = False,
      activeCheck = [], activeCheckTimer = False, pending = [], log = []\<rparr>"

text \<open>
  The steps of a running system: the public commands, the callbacks of the interval
  timers and of the debounce timeout, and the events of the flow sampler and the tanks.
  Each step runs to completion at the clock value it is given.
\<close>

datatype step =
    SetPower jsvalue
  | SetZoneName nat jsvalue
  | SetZoneEnabled nat jsvalue
  | SetZoneRuntime nat runtimeValue
  | SetZoneActive nat jsvalue
  | ZoneRunningTimer nat
  | PauseTimer
  | FlowEvent flow
  | TankReading nat "usonicData list"
  | ActiveRequest reqContext jsvalue requestType
  | ActiveCheckTimeout

fun exec :: "step \<Rightarrow> int \<Rightarrow> system \<Rightarrow> system" where
  "exec (SetPower v) now s = setPower v now s"
| "exec (SetZoneName zi v) now s = setZoneName zi v s"
| "exec (SetZoneEnabled zi v) now s = setZoneEnabled zi v now s"
| "exec (SetZoneRuntime zi v) now s = setZoneRuntime zi v s"
| "exec (SetZoneActive zi v) now s = setZoneActive zi v now s"
| "exec (ZoneRunningTimer zi) now s = zoneRunningTimer zi now s"
| "exec PauseTimer now s = pauseTimer now s"
| "exec (FlowEvent f) now s = emit FLOWEVENT (FlowData f) now s"
| "exec (TankReading ti chunks) now s = tankReading ti chunks now s"
| "exec (ActiveRequest ctx v ty) now s = processActiveCharacteristic ctx v ty s"
| "exec ActiveCheckTimeout now s = fst (activeCheckTimeout now s)"

subsection \<open>The 500 ms timeouts and the order of the timers\<close>









section \<open>Runs and example configurations\<close>

text \<open>A run is a list of steps, each with the clock value (milliseconds) at which it runs.\<close>

definition run :: "(step \<times> int) list \<Rightarrow> system \<Rightarrow> system" where
  "run evs s = fold (\<lambda>ev. exec (fst ev) (snd ev)) evs s"

text \<open>
  A configuration in the shape of the README's example: a virtual zone of three valves
  and a physical zone, each with a runtime of 300 s, one tank, a flow sensor and a leak
  sensor, powered on.
\<close>

definition demoConfig :: deviceData where
  "demoConfig =
     \<lparr>dd_power = True, dd_pauseTimeout = 0, dd_maxRuntime = 7200,
      dd_zones =
        [\<lparr>zc_uuid = ''zone-a'', zc_name = ''Zone 1'', zc_enabled = True, zc_runtime = 300,
          zc_relayPin = Pins [14, 15, 18]\<rparr>,
         \<lparr>zc_uuid = ''zone-b'', zc_name = ''Zone 2'', zc_enabled = True, zc_runtime = 300,
          zc_relayPin = Pin 23\<rparr>],
      dd_tanks =
        [\<lparr>tc_enabled = True, tc_sensorTrigPin = Some 20, tc_sensorEchoPin = Some 21,
          tc_sensorHeight = 1970, tc_minimumLevel = 200\<rparr>],
      dd_leakSensor = True, dd_sensorFlowPin = Some 4, dd_waterLeakAlert = True\<rparr>"

text \<open>The same system switched off and paused until second 1000.\<close>

definition pausedSystem :: system where
  "pausedSystem = addServices (demoConfig\<lparr>dd_power := False, dd_pauseTimeout := 1000\<rparr>)"

text \<open>A tank whose usable range (sensor height minus minimum level) is 200 mm.\<close>

definition narrowTank :: watertank where
  "narrowTank =
     newWaterTank \<lparr>tc_enabled = True, tc_sensorTrigPin = Some 20, tc_sensorEchoPin = Some 21,
                   tc_sensorHeight = 1000, tc_minimumLevel = 800\<rparr>"

text \<open>
  The flow sample of second \<open>k\<close>, and a run that ends at second 99: no flow in seconds
  71 to 75, Zone 2 switched on at 75.5 s and off at 80.5 s, and a flow of 0.1 l in every
  second from 76 on.
\<close>

definition sample :: "int \<Rightarrow> rat \<Rightarrow> flow" where
  "sample k v = \<lparr>time = 1000 * k, rate = 60 * v, volume = v\<rparr>"

definition leakRun :: "(step \<times> int) list" where
  "leakRun =
     map (\<lambda>k. (FlowEvent (sample k 0), 1000 * k)) [71, 72, 73, 74, 75]
     @ [(SetZoneActive 1 (JNum 1), 75500)]
     @ map (\<lambda>k. (FlowEvent (sample k (1 / 10)), 1000 * k)) [76, 77, 78, 79, 80]
     @ [(SetZoneActive 1 (JNum 0), 80500)]
     @ map (\<lambda>k. (FlowEvent (sample k (1 / 10)), 1000 * k))
         [81, 82, 83, 84, 85, 86, 87, 88, 89, 90, 91, 92, 93, 94, 95, 96, 97, 98, 99]"

definition leakScenario :: system where
  "leakScenario = run leakRun (addServices demoConfig)"

section \<open>What the zone operations leave alone\<close>

text \<open>
  The configuration of a zone and the part of the system that the valve and zone
  operations never write.
\<close>

definition zcfg ::
    "zone \<Rightarrow> string \<times> string \<times> bool \<times> int \<times> int \<times> bool \<times> string \<times> nat option list" where
  "zcfg z = (uuid z, name z, enabled z, runtime z, SetDuration z, IsConfigured z,
             ConfiguredName z, map GPIO_ValvePin (valves z))"

definition frame where
  "frame s = (power s, pauseTimeout s, maxRuntime s, waterLeakAlert s, tanks s, sysActive s, sysInUse s,
              ProgramMode s, WaterLevel s, leakSensorService s, flowData s, leakDetected s,
              activeCheck s, activeCheckTimer s, map zcfg (zones s))"

definition zrt :: "zone \<Rightarrow> bool \<times> int option \<times> int" where
  "zrt z = (Active z, timer z, timerStart z)"

definition vopen :: "system \<Rightarrow> nat \<Rightarrow> nat \<Rightarrow> bool" where
  "vopen s zi i \<longleftrightarrow> isOpen (valves (zones s ! zi) ! i)"

definition vpin :: "system \<Rightarrow> nat \<Rightarrow> nat \<Rightarrow> nat option" where
  "vpin s zi i = GPIO_ValvePin (valves (zones s ! zi) ! i)"

definition nvalves :: "system \<Rightarrow> nat \<Rightarrow> nat" where
  "nvalves s zi = length (valves (zones s ! zi))"

text \<open>A zone has at most one open valve, and an open valve has a relay pin.\<close>

definition zoneW :: "system \<Rightarrow> nat \<Rightarrow> bool" where
  "zoneW s zi \<longleftrightarrow>
     (\<forall>i<nvalves s zi. \<forall>j<nvalves s zi. vopen s zi i \<and> vopen s zi j \<longrightarrow> i = j)
     \<and> (\<forall>i<nvalves s zi. vopen s zi i \<longrightarrow> vpin s zi i \<noteq> None)"

text \<open>Of the valves of a zone only the first may be open.\<close>

definition quiet :: "system \<Rightarrow> nat \<Rightarrow> bool" where
  "quiet s zi \<longleftrightarrow> (\<forall>i<nvalves s zi. vopen s zi i \<longrightarrow> i = 0)"

text \<open>
  The invariant of one zone. A zone that is not active may still have its first valve
  open: the revert scheduled while the power was off marks the zone inactive without
  closing a valve. An active zone is enabled and the power is on, and an interval exists
  only for an active zone.
\<close>

definition zoneOK :: "system \<Rightarrow> nat \<Rightarrow> bool" where
  "zoneOK s zi \<longleftrightarrow>
     zoneW s zi
     \<and> (\<not> Active (zones s ! zi) \<longrightarrow> quiet s zi)
     \<and> (Active (zones s ! zi) \<longrightarrow> enabled (zones s ! zi) \<and> power s)
     \<and> (timer (zones s ! zi) \<noteq> None \<longrightarrow> Active (zones s ! zi))"

definition inv :: "system \<Rightarrow> bool" where
  "inv s \<longleftrightarrow> (\<forall>zi<length (zones s). zoneOK s zi)"

text \<open>
  What a pending revert of zone \<open>zi\<close> that is due at \<open>due\<close> relies on: only the first
  valve of the zone may be open, and an interval of the zone has its first callback after
  \<open>due\<close>.
\<close>

definition zoneCalm :: "int \<Rightarrow> system \<Rightarrow> nat \<Rightarrow> bool" where
  "zoneCalm due s zi \<longleftrightarrow>
     zi < length (zones s) \<and> quiet s zi
     \<and> (timer (zones s ! zi) \<noteq> None \<longrightarrow> due < timerStart (zones s ! zi) + 1000)"

definition revertOK :: "int \<Rightarrow> system \<Rightarrow> int \<times> timeout \<Rightarrow> bool" where
  "revertOK t s p \<longleftrightarrow>
     fst p \<le> t + 500
     \<and> (case snd p of PowerOffRevert zi \<Rightarrow> zoneCalm (fst p) s zi | SuppressedRevert c \<Rightarrow> True)"


text \<open>At most one zone is active.\<close>

definition single :: "system \<Rightarrow> bool" where
  "single s \<longleftrightarrow>
     (\<forall>j<length (zones s). \<forall>k<length (zones s).
        Active (zones s ! j) \<and> Active (zones s ! k) \<longrightarrow> j = k)"




text \<open>
  The system of \<open>demoConfig\<close> half a second after Zone 1 was switched on at 0.5 s and
  its countdown ran at 100.5 s: the first valve has handed over to the second.
\<close>

definition handoffState :: system where
  "handoffState =
     run [(SetZoneActive 0 (JNum 1), 500), (ZoneRunningTimer 0, 100500)] (addServices demoConfig)"


text \<open>
  The system of \<open>demoConfig\<close> as constructed, and after a first flow sample with a
  non-zero volume at second 1.
\<close>

definition leakFreeState :: system where
  "leakFreeState = addServices demoConfig"

definition leakRaisedState :: system where
  "leakRaisedState = exec (FlowEvent (sample 1 (1 / 10))) 1000 leakFreeState"

text \<open>The two kinds of request the debounce counts.\<close>

definition isSystemRequest :: "activeCheck \<Rightarrow> bool" where
  "isSystemRequest ac \<longleftrightarrow> ac_type ac = TypeSystem \<or> ac_type ac = TypeSwitch"

definition isValveRequest :: "activeCheck \<Rightarrow> bool" where
  "isValveRequest ac \<longleftrightarrow> ac_type ac = TypeValve"

text \<open>
  \<open>demoConfig\<close> with Zone 2 disabled and the power off, and in it the batch of one
  system request and one zone request, both to switch on.
\<close>

definition singleZoneBatch :: system where
  "singleZoneBatch =
     run [(SetPower (JBool False), 0), (SetZoneEnabled 1 (JNum 0), 1000),
          (ActiveRequest IrrigationService (JNum 1) TypeSystem, 60000),
          (ActiveRequest (DeviceZone 0) (JNum 1) TypeValve, 60010)]
       (addServices demoConfig)"

text \<open>The batch of one system request and a zone request for each of the two zones.\<close>

definition twoZoneBatch :: system where
  "twoZoneBatch =
     run [(SetPower (JBool False), 0),
          (ActiveRequest (DeviceZone 0) (JNum 1) TypeValve, 60000),
          (ActiveRequest IrrigationService (JNum 1) TypeSystem, 60005),
          (ActiveRequest (DeviceZone 1) (JNum 1) TypeValve, 60010)]
       (addServices demoConfig)"

text \<open>What \<^verbatim>\<open>setZoneActive(zone, INACTIVE)\<close> leaves of a zone that ran.\<close>

definition stopped :: "zone \<Rightarrow> bool" where
  "stopped z \<longleftrightarrow>
     \<not> Active z \<and> timer z = None
     \<and> (\<forall>i<length (valves z). isOpen (valves z ! i) \<longrightarrow> GPIO_ValvePin (valves z ! i) = None)"

text \<open>
  The scenario of a 300 s zone with three valves: Zone 1 of \<open>demoConfig\<close> is switched
  on at clock 0 and its interval callback then runs once a second; \<open>countdownAt n\<close> is
  the state after the callback of second \<open>n\<close>.
\<close>

definition countdownAt :: "nat \<Rightarrow> system" where
  "countdownAt n =
     run ((SetZoneActive 0 (JNum 1), 0) # map (\<lambda>k. (ZoneRunningTimer 0, 1000 * int k)) [1..<Suc n])
       (addServices demoConfig)"

text \<open>The index of the 100 s slice that second \<open>n\<close> falls into.\<close>

definition slice :: "nat \<Rightarrow> nat" where
  "slice n = (if n < 100 then 0 else if n < 200 then 1 else 2)"

text \<open>
  A state of that scenario while the zone runs: only the valves and the remaining duration
  differ from the state right after the activation, and valve \<open>i\<close> alone is open.
\<close>

definition running :: "nat \<Rightarrow> system \<Rightarrow> bool" where
  "running i s \<longleftrightarrow>
     frame s = frame (countdownAt 0) \<and> map zrt (zones s) = map zrt (zones (countdownAt 0))
     \<and> (\<forall>k<3. vopen s 0 k \<longleftrightarrow> k = i)"




section \<open>Frame lemmas\<close>

lemma fold_same: "(\<And>x s. g (f x s) = g s) \<Longrightarrow> g (fold f xs s) = g s"
  by (induction xs arbitrary: s) auto

lemma map_update_same: "f x = f (xs ! i) \<Longrightarrow> map f (xs[i := x]) = map f xs"
  by (induction xs arbitrary: i) (auto split: nat.splits)

lemma map_zcfg_update:
  "zcfg z' = zcfg (zs ! zi) \<Longrightarrow> map zcfg (zs[zi := z']) = map zcfg zs"
  by (rule map_update_same)

lemma frame_updZone: "(\<And>z. zcfg (f z) = zcfg z) \<Longrightarrow> frame (updZone zi f s) = frame s"
  by (simp add: frame_def updZone_def map_zcfg_update)

lemma zcfg_valve_update:
  "GPIO_ValvePin (g (valves z ! vi)) = GPIO_ValvePin (valves z ! vi) \<Longrightarrow>
   zcfg (z\<lparr>valves := (valves z)[vi := g (valves z ! vi)]\<rparr>) = zcfg z"
  by (simp add: zcfg_def map_update_same)

lemma frame_updValve:
  "(\<And>v. GPIO_ValvePin (g v) = GPIO_ValvePin v) \<Longrightarrow> frame (updValve zi vi g s) = frame s"
  unfolding updValve_def by (rule frame_updZone) (simp add: zcfg_valve_update)

lemma emit_VALVEEVENT:
  "emit VALVEEVENT (ValveData zi st t w d) now s = onValveEvent zi st t w d s"
  by (simp add: emit_def messageServices_def Valve_WATERLEVEL_def Valve_FLOWEVENT_def
      Valve_VALVEEVENT_def)

lemma frame_log [simp]: "frame (s\<lparr>log := l\<rparr>) = frame s"
  by (simp add: frame_def)

lemma frame_lastValveClose [simp]: "frame (s\<lparr>lastValveClose := l\<rparr>) = frame s"
  by (simp add: frame_def)

lemma frame_pending [simp]: "frame (s\<lparr>pending := l\<rparr>) = frame s"
  by (simp add: frame_def)

lemma frame_onValveEvent: "frame (onValveEvent zi st t w d s) = frame s"
  by (cases st) (simp_all add: onValveEvent_def Let_def frame_updZone zcfg_def)

lemma frame_valve_open: "frame (valve_open zi vi now s) = frame s"
  by (simp add: valve_open_def emit_VALVEEVENT frame_onValveEvent frame_updValve
      split: option.split)

lemma frame_valve_close: "frame (valve_close zi vi now s) = frame s"
  by (simp add: valve_close_def Let_def emit_VALVEEVENT frame_onValveEvent frame_updValve
      split: option.split)

lemma frame_closeOpenValves: "frame (closeOpenValves zi now s) = frame s"
  unfolding closeOpenValves_def by (rule fold_same) (simp add: frame_valve_close)

lemma frame_deactivateZone: "frame (deactivateZone zi now s) = frame s"
  by (simp add: deactivateZone_def frame_closeOpenValves frame_updZone zcfg_def)

lemma frame_setZoneActive_INACTIVE: "frame (setZoneActive_INACTIVE zi now s) = frame s"
  by (simp add: setZoneActive_INACTIVE_def frame_deactivateZone)

lemma frame_cancelRunningZones: "frame (cancelRunningZones now s) = frame s"
  unfolding cancelRunningZones_def by (rule fold_same) (simp add: frame_setZoneActive_INACTIVE)

lemma frame_activateZone: "frame (activateZone zi now s) = frame s"
  by (simp add: activateZone_def Let_def frame_updZone frame_valve_open
      frame_cancelRunningZones zcfg_def)

lemma frame_power: "frame s' = frame s \<Longrightarrow> power s' = power s"
  by (simp add: frame_def)

lemma frame_setZoneActive: "frame (setZoneActive zi v now s) = frame s"
  by (simp add: setZoneActive_def Let_def frame_activateZone frame_deactivateZone)

lemma frame_tickValve: "frame (tickValve e zi now i s) = frame s"
  by (simp add: tickValve_def Let_def frame_valve_open frame_valve_close)

lemma frame_zoneRunningTimer: "frame (zoneRunningTimer zi now s) = frame s"
  by (simp add: zoneRunningTimer_def Let_def frame_setZoneActive frame_updZone zcfg_def
      fold_same[where g=frame, OF frame_tickValve] split: option.split)

lemma zones_onValveEvent_other:
  "j \<noteq> zi \<Longrightarrow> zones (onValveEvent zi st t w d s) ! j = zones s ! j"
  by (cases st) (simp_all add: onValveEvent_def Let_def updZone_def)

lemma valves_onValveEvent:
  "valves (zones (onValveEvent zi st t w d s) ! j) = valves (zones s ! j)"
  by (cases st; cases "j = zi") (simp_all add: onValveEvent_def Let_def updZone_def)

lemma zrt_onValveEvent:
  "map zrt (zones (onValveEvent zi st t w d s)) = map zrt (zones s)"
  by (cases st) (simp_all add: onValveEvent_def Let_def updZone_def map_update_same zrt_def)

lemma length_zones_onValveEvent [simp]:
  "length (zones (onValveEvent zi st t w d s)) = length (zones s)"
  by (cases st) (simp_all add: onValveEvent_def Let_def updZone_def)

lemma zones_updValve_other: "j \<noteq> zi \<Longrightarrow> zones (updValve zi vi g s) ! j = zones s ! j"
  by (simp add: updValve_def updZone_def)

lemma zrt_updValve: "map zrt (zones (updValve zi vi g s)) = map zrt (zones s)"
  by (simp add: updValve_def updZone_def map_update_same zrt_def)

lemma valves_updValve:
  "zi < length (zones s) \<Longrightarrow>
   valves (zones (updValve zi vi g s) ! zi) = (valves (zones s ! zi))[vi := g (valves (zones s ! zi) ! vi)]"
  by (simp add: updValve_def updZone_def)

lemma zones_valve_open_other: "j \<noteq> zi \<Longrightarrow> zones (valve_open zi vi now s) ! j = zones s ! j"
  by (simp add: valve_open_def emit_VALVEEVENT zones_onValveEvent_other zones_updValve_other
      split: option.split)

lemma zones_valve_close_other: "j \<noteq> zi \<Longrightarrow> zones (valve_close zi vi now s) ! j = zones s ! j"
  by (simp add: valve_close_def Let_def emit_VALVEEVENT zones_onValveEvent_other
      zones_updValve_other split: option.split)

lemma zrt_valve_open: "map zrt (zones (valve_open zi vi now s)) = map zrt (zones s)"
  by (simp add: valve_open_def emit_VALVEEVENT zrt_onValveEvent zrt_updValve split: option.split)

lemma zrt_valve_close: "map zrt (zones (valve_close zi vi now s)) = map zrt (zones s)"
  by (simp add: valve_close_def Let_def emit_VALVEEVENT zrt_onValveEvent zrt_updValve
      split: option.split)

lemma length_zones_frame: "frame s' = frame s \<Longrightarrow> length (zones s') = length (zones s)"
  unfolding frame_def by (metis length_map prod.inject)

lemma nvalves_frame:
  assumes "frame s' = frame s" "zi < length (zones s)"
  shows "nvalves s' zi = nvalves s zi"
proof -
  have "map zcfg (zones s') = map zcfg (zones s)" using assms(1) by (simp add: frame_def)
  then have "zcfg (zones s' ! zi) = zcfg (zones s ! zi)"
    using assms(2) by (metis length_map nth_map)
  then have "map GPIO_ValvePin (valves (zones s' ! zi)) = map GPIO_ValvePin (valves (zones s ! zi))"
    by (simp add: zcfg_def)
  then show ?thesis unfolding nvalves_def by (metis length_map)
qed

lemma vpin_frame:
  assumes "frame s' = frame s" "zi < length (zones s)" "i < nvalves s zi"
  shows "vpin s' zi i = vpin s zi i"
proof -
  have "map zcfg (zones s') = map zcfg (zones s)" using assms(1) by (simp add: frame_def)
  then have "zcfg (zones s' ! zi) = zcfg (zones s ! zi)"
    using assms(2) by (metis length_map nth_map)
  then have eq: "map GPIO_ValvePin (valves (zones s' ! zi)) = map GPIO_ValvePin (valves (zones s ! zi))"
    by (simp add: zcfg_def)
  have "i < length (valves (zones s' ! zi))" using eq assms(3) unfolding nvalves_def by (metis length_map)
  then show ?thesis using eq assms(3) unfolding vpin_def nvalves_def by (metis nth_map)
qed

lemma enabled_frame:
  assumes "frame s' = frame s" "zi < length (zones s)"
  shows "enabled (zones s' ! zi) = enabled (zones s ! zi)"
proof -
  have "map zcfg (zones s') = map zcfg (zones s)" using assms(1) by (simp add: frame_def)
  then have "zcfg (zones s' ! zi) = zcfg (zones s ! zi)"
    using assms(2) by (metis length_map nth_map)
  then show ?thesis by (simp add: zcfg_def)
qed

lemma Active_zrt:
  assumes "map zrt (zones s') = map zrt (zones s)" "zi < length (zones s)"
  shows "Active (zones s' ! zi) = Active (zones s ! zi)" "timer (zones s' ! zi) = timer (zones s ! zi)"
proof -
  have "zrt (zones s' ! zi) = zrt (zones s ! zi)"
    using assms by (metis length_map nth_map)
  then show "Active (zones s' ! zi) = Active (zones s ! zi)" "timer (zones s' ! zi) = timer (zones s ! zi)"
    by (simp_all add: zrt_def)
qed

lemma vopen_valve_open:
  assumes "zi < length (zones s)" "vi < nvalves s zi" "i < nvalves s zi"
  shows "vopen (valve_open zi vi now s) zi i \<longleftrightarrow> vopen s zi i \<or> (i = vi \<and> vpin s zi vi \<noteq> None)"
  using assms
  by (auto simp: valve_open_def emit_VALVEEVENT valves_onValveEvent valves_updValve vopen_def
      vpin_def nvalves_def isOpen_def nth_list_update split: option.split)

lemma vopen_valve_close:
  assumes "zi < length (zones s)" "vi < nvalves s zi" "i < nvalves s zi"
  shows "vopen (valve_close zi vi now s) zi i \<longleftrightarrow> vopen s zi i \<and> \<not> (i = vi \<and> vpin s zi vi \<noteq> None)"
  using assms
  by (auto simp: valve_close_def Let_def emit_VALVEEVENT valves_onValveEvent valves_updValve
      vopen_def vpin_def nvalves_def isOpen_def nth_list_update
      split: option.split)

lemma zoneOK_cong:
  "power s' = power s \<Longrightarrow> zones s' ! zi = zones s ! zi \<Longrightarrow> zoneOK s' zi = zoneOK s zi"
  by (simp add: zoneOK_def quiet_def zoneW_def nvalves_def vopen_def vpin_def)

lemma frame_closeStep:
  "frame (if vopen s zi x then valve_close zi x now s else s) = frame s"
  by (simp add: frame_valve_close)

lemma close_fold:
  "zi < length (zones s) \<Longrightarrow> \<forall>x\<in>set xs. x < nvalves s zi \<Longrightarrow> i < nvalves s zi \<Longrightarrow>
   vopen (fold (\<lambda>vi s'. if vopen s' zi vi then valve_close zi vi now s' else s') xs s) zi i
     \<longleftrightarrow> vopen s zi i \<and> (i \<notin> set xs \<or> vpin s zi i = None)"
proof (induction xs arbitrary: s)
  case Nil
  then show ?case by simp
next
  case (Cons x xs)
  let ?s1 = "if vopen s zi x then valve_close zi x now s else s"
  have fr: "frame ?s1 = frame s" by (rule frame_closeStep)
  have len: "zi < length (zones ?s1)" using length_zones_frame[OF fr] Cons.prems(1) by simp
  have nv: "nvalves ?s1 zi = nvalves s zi" using fr Cons.prems(1) by (rule nvalves_frame)
  have pin: "\<And>k. k < nvalves s zi \<Longrightarrow> vpin ?s1 zi k = vpin s zi k"
    using fr Cons.prems(1) by (rule vpin_frame)
  have x: "x < nvalves s zi" using Cons.prems(2) by simp
  have op1: "vopen ?s1 zi i \<longleftrightarrow> vopen s zi i \<and> \<not> (i = x \<and> vpin s zi x \<noteq> None)"
    using vopen_valve_close[OF Cons.prems(1) x Cons.prems(3), of now] by auto
  have "vopen (fold (\<lambda>vi s'. if vopen s' zi vi then valve_close zi vi now s' else s') xs ?s1) zi i
        \<longleftrightarrow> vopen ?s1 zi i \<and> (i \<notin> set xs \<or> vpin ?s1 zi i = None)"
    using Cons.IH[of ?s1] len nv Cons.prems by simp
  then show ?case using op1 pin[OF Cons.prems(3)] by auto
qed

lemma closeOpenValves_fold:
  "closeOpenValves zi now s =
     fold (\<lambda>vi s'. if vopen s' zi vi then valve_close zi vi now s' else s') [0..<nvalves s zi] s"
  by (simp add: closeOpenValves_def vopen_def nvalves_def)

lemma vopen_closeOpenValves:
  "zi < length (zones s) \<Longrightarrow> i < nvalves s zi \<Longrightarrow>
   vopen (closeOpenValves zi now s) zi i \<longleftrightarrow> vopen s zi i \<and> vpin s zi i = None"
  unfolding closeOpenValves_fold by (subst close_fold) auto

lemma zones_closeOpenValves_other:
  "j \<noteq> zi \<Longrightarrow> zones (closeOpenValves zi now s) ! j = zones s ! j"
  unfolding closeOpenValves_def
  by (rule fold_same[where g="\<lambda>s. zones s ! j"]) (simp add: zones_valve_close_other)

lemma zrt_closeOpenValves: "map zrt (zones (closeOpenValves zi now s)) = map zrt (zones s)"
  unfolding closeOpenValves_def
  by (rule fold_same[where g="\<lambda>s. map zrt (zones s)"]) (simp add: zrt_valve_close)

text \<open>deactivateZone\<close>

lemma zones_updZone_other: "j \<noteq> zi \<Longrightarrow> zones (updZone zi f s) ! j = zones s ! j"
  by (simp add: updZone_def)

lemma zones_updZone_same: "zi < length (zones s) \<Longrightarrow> zones (updZone zi f s) ! zi = f (zones s ! zi)"
  by (simp add: updZone_def)

lemma length_zones_updZone [simp]: "length (zones (updZone zi f s)) = length (zones s)"
  by (simp add: updZone_def)

lemma power_updZone [simp]: "power (updZone zi f s) = power s"
  by (simp add: updZone_def)

lemma zones_deactivateZone_other:
  "j \<noteq> zi \<Longrightarrow> zones (deactivateZone zi now s) ! j = zones s ! j"
  by (simp add: deactivateZone_def zones_closeOpenValves_other zones_updZone_other)

lemma Active_deactivateZone:
  "zi < length (zones s) \<Longrightarrow> Active (zones (deactivateZone zi now s) ! zi) = False"
  "zi < length (zones s) \<Longrightarrow> timer (zones (deactivateZone zi now s) ! zi) = None"
  unfolding deactivateZone_def
  by (simp_all add: Active_zrt[OF zrt_closeOpenValves] zones_updZone_same)

lemma vopen_deactivateZone:
  assumes "zi < length (zones s)" "i < nvalves s zi"
  shows "vopen (deactivateZone zi now s) zi i \<longleftrightarrow> vopen s zi i \<and> vpin s zi i = None"
proof -
  let ?s1 = "updZone zi (\<lambda>z. z\<lparr>timer := None, Active := False, InUse := False,
                             RemainingDuration := 0\<rparr>) s"
  have v: "valves (zones ?s1 ! zi) = valves (zones s ! zi)"
    using assms(1) by (simp add: zones_updZone_same)
  have "vopen (closeOpenValves zi now ?s1) zi i \<longleftrightarrow> vopen ?s1 zi i \<and> vpin ?s1 zi i = None"
    using assms v by (intro vopen_closeOpenValves) (simp_all add: nvalves_def)
  then show ?thesis using v by (simp add: deactivateZone_def vopen_def vpin_def)
qed

lemma inv_deactivateZone:
  assumes "inv s" "zi < length (zones s)"
  shows "inv (deactivateZone zi now s)"
proof -
  let ?s' = "deactivateZone zi now s"
  have fr: "frame ?s' = frame s" by (rule frame_deactivateZone)
  have len: "length (zones ?s') = length (zones s)" using fr by (rule length_zones_frame)
  have pw: "power ?s' = power s" using fr by (rule frame_power)
  have nv: "nvalves ?s' zi = nvalves s zi" using fr assms(2) by (rule nvalves_frame)
  have closed: "\<And>i. i < nvalves s zi \<Longrightarrow> \<not> vopen ?s' zi i"
  proof -
    fix i assume i: "i < nvalves s zi"
    have "zoneW s zi" using assms by (simp add: inv_def zoneOK_def quiet_def)
    then have "vopen s zi i \<longrightarrow> vpin s zi i \<noteq> None" using i by (simp add: zoneW_def)
    then show "\<not> vopen ?s' zi i" using vopen_deactivateZone[OF assms(2) i, of now] by auto
  qed
  have "zoneOK ?s' k" if k: "k < length (zones s)" for k
  proof (cases "k = zi")
    case True
    then show ?thesis
      using closed nv Active_deactivateZone[OF assms(2), of now]
      by (simp add: zoneOK_def quiet_def zoneW_def)
  next
    case False
    have "zoneOK ?s' k = zoneOK s k"
      using pw zones_deactivateZone_other[OF False] by (rule zoneOK_cong)
    then show ?thesis using assms(1) k by (simp add: inv_def)
  qed
  then show ?thesis using len by (simp add: inv_def)
qed

lemma inv_setZoneActive_INACTIVE: "inv s \<Longrightarrow> inv (setZoneActive_INACTIVE zi now s)"
  by (simp add: setZoneActive_INACTIVE_def zoneGuard_def inv_deactivateZone)

lemma Active_setZoneActive_INACTIVE:
  assumes "k < length (zones s)"
  shows "Active (zones (setZoneActive_INACTIVE zi now s) ! k)
         \<longleftrightarrow> Active (zones s ! k) \<and> \<not> (k = zi \<and> enabled (zones s ! zi) \<and> power s)"
proof (cases "k = zi")
  case True
  then show ?thesis
    using assms Active_deactivateZone(1)[of zi s now]
    by (auto simp: setZoneActive_INACTIVE_def zoneGuard_def validSwitchValue_def)
next
  case False
  then show ?thesis
    by (simp add: setZoneActive_INACTIVE_def zones_deactivateZone_other)
qed

text \<open>cancelRunningZones\<close>

lemma cancel_fold:
  "inv s \<Longrightarrow> \<forall>x\<in>set xs. x < length (zones s) \<Longrightarrow>
   inv (fold (\<lambda>j s'. if Active (zones s' ! j) then setZoneActive_INACTIVE j now s' else s') xs s)
   \<and> (\<forall>k<length (zones s).
        Active (zones (fold (\<lambda>j s'. if Active (zones s' ! j) then setZoneActive_INACTIVE j now s' else s') xs s) ! k)
        \<longleftrightarrow> Active (zones s ! k) \<and> (k \<notin> set xs \<or> \<not> (enabled (zones s ! k) \<and> power s)))"
proof (induction xs arbitrary: s)
  case Nil
  then show ?case by simp
next
  case (Cons x xs)
  let ?s1 = "if Active (zones s ! x) then setZoneActive_INACTIVE x now s else s"
  have fr: "frame ?s1 = frame s" by (simp add: frame_setZoneActive_INACTIVE)
  have len: "length (zones ?s1) = length (zones s)" using fr by (rule length_zones_frame)
  have pw: "power ?s1 = power s" using fr by (rule frame_power)
  have en: "\<And>k. k < length (zones s) \<Longrightarrow> enabled (zones ?s1 ! k) = enabled (zones s ! k)"
    using fr by (rule enabled_frame)
  have inv1: "inv ?s1" using Cons.prems(1) by (simp add: inv_setZoneActive_INACTIVE)
  have act1: "\<And>k. k < length (zones s) \<Longrightarrow>
      Active (zones ?s1 ! k) \<longleftrightarrow> Active (zones s ! k) \<and> \<not> (k = x \<and> enabled (zones s ! x) \<and> power s)"
    using Active_setZoneActive_INACTIVE[of _ s x now] by auto
  have IH: "inv (fold (\<lambda>j s'. if Active (zones s' ! j) then setZoneActive_INACTIVE j now s' else s') xs ?s1)
   \<and> (\<forall>k<length (zones ?s1).
        Active (zones (fold (\<lambda>j s'. if Active (zones s' ! j) then setZoneActive_INACTIVE j now s' else s') xs ?s1) ! k)
        \<longleftrightarrow> Active (zones ?s1 ! k) \<and> (k \<notin> set xs \<or> \<not> (enabled (zones ?s1 ! k) \<and> power ?s1)))"
    using Cons.IH[OF inv1] Cons.prems(2) len by simp
  show ?case
    using IH act1 en pw len by simp blast
qed

lemma cancelRunningZones_inv: "inv s \<Longrightarrow> inv (cancelRunningZones now s)"
  unfolding cancelRunningZones_def using cancel_fold[of s "[0..<length (zones s)]" now] by simp

lemma cancelRunningZones_none_active:
  "inv s \<Longrightarrow> k < length (zones s) \<Longrightarrow> \<not> Active (zones (cancelRunningZones now s) ! k)"
  unfolding cancelRunningZones_def
  using cancel_fold[of s "[0..<length (zones s)]" now]
  by (auto simp: inv_def zoneOK_def quiet_def)

lemma numberRunningZones_0: "numberRunningZones s = 0 \<longleftrightarrow> (\<forall>k<length (zones s). \<not> Active (zones s ! k))"
  by (simp add: numberRunningZones_def filter_empty_conv all_set_conv_all_nth)

lemma inv_updZone_same:
  assumes "\<And>z. Active (f z) = Active z" "\<And>z. enabled (f z) = enabled z"
          "\<And>z. valves (f z) = valves z" "\<And>z. timer (f z) = timer z"
  shows "inv (updZone zi f s) = inv s"
proof -
  have "zoneOK (updZone zi f s) k = zoneOK s k" if "k < length (zones s)" for k
    using that assms
    by (cases "k = zi")
       (simp_all add: zoneOK_def quiet_def zoneW_def nvalves_def vopen_def vpin_def updZone_def)
  then show ?thesis by (auto simp: inv_def)
qed

lemma inv_quiet_activateZone:
  assumes "inv s" "zi < length (zones s)" "enabled (zones s ! zi)" "power s"
  shows "inv (activateZone zi now s) \<and> quiet (activateZone zi now s) zi"
proof -
  define s1 where "s1 = (if numberRunningZones s \<noteq> 0 then cancelRunningZones now s else s)"
  define s2 where "s2 = updZone zi (\<lambda>z. z\<lparr>totalwater := 0, totalduration := 0\<rparr>) s1"
  define s3 where "s3 = (if 0 < length (valves (zones s2 ! zi)) then valve_open zi 0 now s2 else s2)"
  define s4 where "s4 = updZone zi (\<lambda>z. z\<lparr>Active := True, InUse := True,
                                   RemainingDuration := SetDuration z\<rparr>) s3"
  define s5 where "s5 = updZone zi (\<lambda>z. z\<lparr>timer := Some (nowSec now + SetDuration (zones s4 ! zi)),
                                               timerStart := now\<rparr>) s4"
  have s5: "activateZone zi now s = s5"
    by (simp add: activateZone_def Let_def s1_def s2_def s3_def s4_def s5_def)
  have fr1: "frame s1 = frame s" by (simp add: s1_def frame_cancelRunningZones)
  have inv1: "inv s1" using assms(1) by (simp add: s1_def cancelRunningZones_inv)
  have len1: "length (zones s1) = length (zones s)" using fr1 by (rule length_zones_frame)
  have na1: "\<And>k. k < length (zones s) \<Longrightarrow> \<not> Active (zones s1 ! k)"
    using assms(1) cancelRunningZones_none_active[of s _ now] numberRunningZones_0[of s]
    by (auto simp: s1_def)
  have inv2: "inv s2" unfolding s2_def using inv1 by (subst inv_updZone_same) simp_all
  have len2: "length (zones s2) = length (zones s)" using len1 by (simp add: s2_def)
  have zi2: "zi < length (zones s2)" using len2 assms(2) by simp
  have na2: "\<not> Active (zones s2 ! zi)"
    using na1[OF assms(2)] assms(2) len1 by (simp add: s2_def updZone_def)
  have closed2: "\<And>i. i < nvalves s2 zi \<Longrightarrow> vopen s2 zi i \<Longrightarrow> i = 0"
    using inv2 zi2 na2 unfolding inv_def zoneOK_def quiet_def by blast
  have pin2: "\<And>i. i < nvalves s2 zi \<Longrightarrow> vopen s2 zi i \<Longrightarrow> vpin s2 zi i \<noteq> None"
    using inv2 zi2 unfolding inv_def zoneOK_def zoneW_def by blast
  have fr3: "frame s3 = frame s2" by (simp add: s3_def frame_valve_open)
  have len3: "length (zones s3) = length (zones s)" using length_zones_frame[OF fr3] len2 by simp
  have nv3: "nvalves s3 zi = nvalves s2 zi" using fr3 zi2 by (rule nvalves_frame)
  have pin3: "\<And>i. i < nvalves s2 zi \<Longrightarrow> vpin s3 zi i = vpin s2 zi i"
    using fr3 zi2 by (rule vpin_frame)
  have open3: "\<And>i. i < nvalves s2 zi \<Longrightarrow> vopen s3 zi i \<Longrightarrow> i = 0 \<and> vpin s2 zi 0 \<noteq> None"
  proof -
    fix i assume i: "i < nvalves s2 zi" and o: "vopen s3 zi i"
    then have pos: "0 < nvalves s2 zi" by simp
    then have "s3 = valve_open zi 0 now s2" by (simp add: s3_def nvalves_def)
    then show "i = 0 \<and> vpin s2 zi 0 \<noteq> None"
      using vopen_valve_open[OF zi2 pos i, of now] closed2[OF i] pin2[OF i] o by auto
  qed
  have other3: "\<And>k. k \<noteq> zi \<Longrightarrow> zones s3 ! k = zones s2 ! k"
    by (simp add: s3_def zones_valve_open_other)
  have pw3: "power s3 = power s"
    using frame_power[OF fr3] frame_power[OF fr1] by (simp add: s2_def)
  have pw: "power s5 = power s" using pw3 by (simp add: s5_def s4_def)
  have en: "enabled (zones s3 ! zi) = enabled (zones s ! zi)"
    using enabled_frame[OF fr3 zi2] enabled_frame[OF fr1 assms(2)] assms(2) len1
    by (simp add: s2_def updZone_def)
  have zi3: "zi < length (zones s3)" using len3 assms(2) by simp
  have act5: "Active (zones s5 ! zi)" "enabled (zones s5 ! zi) = enabled (zones s3 ! zi)"
    "valves (zones s5 ! zi) = valves (zones s3 ! zi)"
    using zi3 by (simp_all add: s5_def s4_def updZone_def)
  have "zoneOK s5 k" if k: "k < length (zones s)" for k
  proof (cases "k = zi")
    case True
    have v5: "nvalves s5 zi = nvalves s2 zi" "\<And>i. vopen s5 zi i = vopen s3 zi i"
      "\<And>i. vpin s5 zi i = vpin s3 zi i"
      using act5(3) nv3 by (simp_all add: nvalves_def vopen_def vpin_def)
    have "zoneOK s5 zi"
      unfolding zoneOK_def quiet_def zoneW_def v5
      using open3 pin3 act5(1,2) en assms(3,4) pw by auto
    then show ?thesis using True by simp
  next
    case False
    have "zones s5 ! k = zones s1 ! k"
      using False other3[OF False] by (simp add: s5_def s4_def s2_def updZone_def)
    moreover have "power s5 = power s1" using pw frame_power[OF fr1] by simp
    ultimately have "zoneOK s5 k = zoneOK s1 k" by (intro zoneOK_cong)
    then show ?thesis using inv1 k len1 by (simp add: inv_def)
  qed
  moreover have "length (zones s5) = length (zones s)" using len3 by (simp add: s5_def s4_def)
  moreover have "quiet s5 zi"
    using act5(3) nv3 open3 by (simp add: quiet_def nvalves_def vopen_def)
  ultimately show ?thesis unfolding s5 inv_def by simp
qed

lemma inv_activateZone:
  assumes "inv s" "zi < length (zones s)" "enabled (zones s ! zi)" "power s"
  shows "inv (activateZone zi now s)"
  using inv_quiet_activateZone[OF assms] by simp

lemma power_frame_setZoneActive: "power (setZoneActive zi v now s) = power s"
  by (rule frame_power[OF frame_setZoneActive])

lemma inv_pending [simp]: "inv (s\<lparr>pending := p\<rparr>) = inv s"
  by (simp add: inv_def zoneOK_def quiet_def zoneW_def nvalves_def vopen_def vpin_def)

lemma inv_log [simp]: "inv (s\<lparr>log := p\<rparr>) = inv s"
  by (simp add: inv_def zoneOK_def quiet_def zoneW_def nvalves_def vopen_def vpin_def)

lemma inv_setZoneActive: "inv s \<Longrightarrow> inv (setZoneActive zi v now s)"
  by (auto simp: setZoneActive_def Let_def zoneGuard_def inv_activateZone inv_deactivateZone
      frame_power[OF frame_activateZone] isActivate_def isDeactivate_def)

lemma inv_tickValve:
  assumes "inv s" "zi < length (zones s)" "i < nvalves s zi" "Active (zones s ! zi)"
  shows "inv (tickValve e zi now i s)"
proof (cases "vopen s zi i \<and> valveEndTime e (SetDuration (zones s ! zi)) (nvalves s zi) i \<le> of_int (nowSec now)
               \<and> i + 1 < nvalves s zi")
  case False
  then have "tickValve e zi now i s = s"
    by (auto simp: tickValve_def Let_def vopen_def nvalves_def)
  then show ?thesis using assms(1) by simp
next
  case True
  define s1 where "s1 = valve_close zi i now s"
  define s2 where "s2 = valve_open zi (i + 1) now s1"
  have t: "tickValve e zi now i s = s2"
    using True by (auto simp: tickValve_def Let_def vopen_def nvalves_def s1_def s2_def)
  have i1: "i + 1 < nvalves s zi" using True by simp
  have fr1: "frame s1 = frame s" by (simp add: s1_def frame_valve_close)
  have fr2: "frame s2 = frame s1" by (simp add: s2_def frame_valve_open)
  have len1: "length (zones s1) = length (zones s)" using fr1 by (rule length_zones_frame)
  have len2: "length (zones s2) = length (zones s)" using length_zones_frame[OF fr2] len1 by simp
  have zi1: "zi < length (zones s1)" using len1 assms(2) by simp
  have nv1: "nvalves s1 zi = nvalves s zi" using fr1 assms(2) by (rule nvalves_frame)
  have nv2: "nvalves s2 zi = nvalves s zi" using nvalves_frame[OF fr2 zi1] nv1 by simp
  have pin1: "\<And>k. k < nvalves s zi \<Longrightarrow> vpin s1 zi k = vpin s zi k"
    using fr1 assms(2) by (rule vpin_frame)
  have pin2: "\<And>k. k < nvalves s zi \<Longrightarrow> vpin s2 zi k = vpin s zi k"
    using vpin_frame[OF fr2 zi1] nv1 pin1 by simp
  have zW: "zoneW s zi"
    and zE: "Active (zones s ! zi) \<longrightarrow> enabled (zones s ! zi) \<and> power s"
    using assms(1,2) by (simp_all add: inv_def zoneOK_def quiet_def)
  have only: "\<And>k. k < nvalves s zi \<Longrightarrow> vopen s zi k \<Longrightarrow> k = i"
    using zW True assms(3) unfolding zoneW_def by blast
  have pini: "vpin s zi i \<noteq> None" using zW True assms(3) unfolding zoneW_def by blast
  have act: "Active (zones s ! zi)" using assms(4) .
  have op1: "\<And>k. k < nvalves s zi \<Longrightarrow> \<not> vopen s1 zi k"
    using vopen_valve_close[OF assms(2) assms(3), of _ now] only pini by (auto simp: s1_def)
  have op2: "\<And>k. k < nvalves s zi \<Longrightarrow> vopen s2 zi k \<longleftrightarrow> (k = i + 1 \<and> vpin s zi (i + 1) \<noteq> None)"
    using vopen_valve_open[OF zi1, of "i + 1" _ now] i1 nv1 op1 pin1 by (auto simp: s2_def)
  have zrt2: "map zrt (zones s2) = map zrt (zones s)"
    by (simp add: s2_def s1_def zrt_valve_open zrt_valve_close)
  have act2: "Active (zones s2 ! zi) = Active (zones s ! zi)"
    using Active_zrt(1)[OF zrt2 assms(2)] .
  have en2: "enabled (zones s2 ! zi) = enabled (zones s ! zi)"
    using enabled_frame[OF fr2 zi1] enabled_frame[OF fr1 assms(2)] by simp
  have pw2: "power s2 = power s" using frame_power[OF fr2] frame_power[OF fr1] by simp
  have "zoneOK s2 k" if k: "k < length (zones s)" for k
  proof (cases "k = zi")
    case True
    have "zoneOK s2 zi"
      unfolding zoneOK_def quiet_def zoneW_def nv2
      using op2 pin2 act act2 en2 pw2 zE by auto
    then show ?thesis using True by simp
  next
    case False
    have "zones s2 ! k = zones s ! k"
      using False by (simp add: s2_def s1_def zones_valve_open_other zones_valve_close_other)
    then have "zoneOK s2 k = zoneOK s k" using pw2 by (intro zoneOK_cong)
    then show ?thesis using assms(1) k by (simp add: inv_def)
  qed
  then show ?thesis unfolding t inv_def using len2 by simp
qed

lemma fold_inv_index:
  assumes "P s" "\<And>x s. x \<in> set xs \<Longrightarrow> P s \<Longrightarrow> P (f x s)"
  shows "P (fold f xs s)"
  using assms by (induction xs arbitrary: s) auto

lemma zrt_tickValve: "map zrt (zones (tickValve e zi now i s)) = map zrt (zones s)"
  by (simp add: tickValve_def Let_def zrt_valve_open zrt_valve_close)

lemma inv_tick_fold:
  assumes "inv s" "zi < length (zones s)" "Active (zones s ! zi)"
  shows "inv (fold (tickValve e zi now) [0..<nvalves s zi] s)"
proof -
  let ?P = "\<lambda>s'. inv s' \<and> frame s' = frame s \<and> map zrt (zones s') = map zrt (zones s)"
  have "?P (fold (tickValve e zi now) [0..<nvalves s zi] s)"
  proof (rule fold_inv_index[where P = ?P])
    show "?P s" using assms(1) by simp
  next
    fix x s' assume x: "x \<in> set [0..<nvalves s zi]" and P: "?P s'"
    have len: "zi < length (zones s')" using length_zones_frame[of s' s] P assms(2) by simp
    have "nvalves s' zi = nvalves s zi" using nvalves_frame[of s' s zi] P assms(2) by simp
    then have x': "x < nvalves s' zi" using x by simp
    have act: "Active (zones s' ! zi)" using Active_zrt(1)[of s' s zi] P assms(2,3) by simp
    have "inv (tickValve e zi now x s')" using P len x' act by (intro inv_tickValve) simp_all
    moreover have "frame (tickValve e zi now x s') = frame s" using P by (simp add: frame_tickValve)
    moreover have "map zrt (zones (tickValve e zi now x s')) = map zrt (zones s)"
      using P by (simp add: zrt_tickValve)
    ultimately show "?P (tickValve e zi now x s')" by simp
  qed
  then show ?thesis by simp
qed

lemma inv_zoneRunningTimer: "inv s \<Longrightarrow> inv (zoneRunningTimer zi now s)"
proof -
  assume i: "inv s"
  show ?thesis
  proof (cases "zi < length (zones s) \<and> timer (zones s ! zi) \<noteq> None")
    case False
    then show ?thesis using i by (auto simp: zoneRunningTimer_def)
  next
    case True
    then have zi: "zi < length (zones s)" and act: "Active (zones s ! zi)"
      using i by (auto simp: inv_def zoneOK_def)
    define s0 where "s0 = (\<lambda>e. updZone zi (\<lambda>z. z\<lparr>RemainingDuration := e - nowSec now\<rparr>) s)"
    have inv0: "\<And>e. inv (s0 e)" unfolding s0_def using i by (subst inv_updZone_same) simp_all
    have nv0: "\<And>e. nvalves (s0 e) zi = nvalves s zi"
      using zi by (simp add: s0_def nvalves_def updZone_def)
    have len0: "\<And>e. zi < length (zones (s0 e))" using zi by (simp add: s0_def)
    have act0: "\<And>e. Active (zones (s0 e) ! zi)" using zi act by (simp add: s0_def updZone_def)
    have f: "\<And>e. inv (fold (tickValve e zi now) [0..<nvalves s zi] (s0 e))"
      using inv_tick_fold[OF inv0 len0 act0] nv0 by simp
    show ?thesis
      using i f
      by (auto simp: zoneRunningTimer_def Let_def inv_setZoneActive s0_def nvalves_def
          split: option.split)
  qed
qed

lemma inv_sys_fields [simp]:
  "inv (s\<lparr>sysInUse := a\<rparr>) = inv s"
  "inv (s\<lparr>sysActive := b\<rparr>) = inv s"
  "inv (s\<lparr>ProgramMode := c\<rparr>) = inv s"
  "inv (s\<lparr>activeCheck := d\<rparr>) = inv s"
  "inv (s\<lparr>activeCheckTimer := e\<rparr>) = inv s"
  "inv (s\<lparr>flowData := f\<rparr>) = inv s"
  "inv (s\<lparr>leakDetected := g\<rparr>) = inv s"
  "inv (s\<lparr>leakSensorService := h\<rparr>) = inv s"
  "inv (s\<lparr>WaterLevel := i\<rparr>) = inv s"
  "inv (s\<lparr>tanks := j\<rparr>) = inv s"
  "inv (s\<lparr>lastValveClose := k\<rparr>) = inv s"
  by (simp_all add: inv_def zoneOK_def quiet_def zoneW_def nvalves_def vopen_def vpin_def)

lemma inv_power_True: "inv s \<Longrightarrow> inv (s\<lparr>power := True\<rparr>)"
  by (simp add: inv_def zoneOK_def quiet_def zoneW_def nvalves_def vopen_def vpin_def)

lemma inv_power_False:
  "inv s \<Longrightarrow> \<forall>k<length (zones s). \<not> Active (zones s ! k) \<Longrightarrow> inv (s\<lparr>power := False\<rparr>)"
  by (simp add: inv_def zoneOK_def quiet_def zoneW_def nvalves_def vopen_def vpin_def)

lemma inv_setPower: "inv s \<Longrightarrow> inv (setPower v now s)"
proof -
  assume i: "inv s"
  define s0 where "s0 = s\<lparr>sysInUse := False\<rparr>"
  have i0: "inv s0" using i by (simp add: s0_def)
  define c where "c = cancelRunningZones now s0"
  have ic: "inv c" using i0 by (simp add: c_def cancelRunningZones_inv)
  have lc: "length (zones c) = length (zones s0)"
    using length_zones_frame[OF frame_cancelRunningZones] by (simp add: c_def)
  have nc: "\<forall>k<length (zones c). \<not> Active (zones c ! k)"
    using cancelRunningZones_none_active[OF i0, of _ now] lc by (simp add: c_def)
  have off: "inv (c\<lparr>ProgramMode := NO_PROGRAM_SCHEDULED, sysActive := False, power := False\<rparr>)"
    using inv_power_False[of "c\<lparr>ProgramMode := NO_PROGRAM_SCHEDULED, sysActive := False\<rparr>"] ic nc
    by simp
  show ?thesis
    using off i0 inv_power_True
    by (auto simp: setPower_def Let_def s0_def[symmetric] c_def[symmetric])
qed

lemma inv_setZoneName: "inv s \<Longrightarrow> inv (setZoneName zi v s)"
  by (cases v) (simp_all add: setZoneName_def inv_updZone_same)

lemma inv_setZoneRuntime: "inv s \<Longrightarrow> inv (setZoneRuntime zi v s)"
  by (cases v) (simp_all add: setZoneRuntime_def inv_updZone_same)

lemma inv_enable:
  assumes "inv s" "on \<or> \<not> Active (zones s ! zi)"
  shows "inv (updZone zi (\<lambda>z. z\<lparr>enabled := on, IsConfigured := on\<rparr>) s)"
proof -
  have "zoneOK (updZone zi (\<lambda>z. z\<lparr>enabled := on, IsConfigured := on\<rparr>) s) k"
    if "k < length (zones s)" for k
    using that assms
    by (cases "k = zi")
       (auto simp: inv_def zoneOK_def quiet_def zoneW_def nvalves_def vopen_def vpin_def updZone_def)
  then show ?thesis by (simp add: inv_def)
qed

lemma inv_setZoneEnabled: "inv s \<Longrightarrow> inv (setZoneEnabled zi v now s)"
proof -
  assume i: "inv s"
  show ?thesis
  proof (cases "\<not> validSwitchValue v \<or> \<not> zi < length (zones s)")
    case True
    then show ?thesis using i by (auto simp: setZoneEnabled_def)
  next
    case False
    then have zi: "zi < length (zones s)" by simp
    define s1 where "s1 = (if (v = JNum 0 \<or> v = JBool False) \<and> Active (zones s ! zi)
                   then setZoneActive_INACTIVE zi now s else s)"
    have i1: "inv s1" using i by (simp add: s1_def inv_setZoneActive_INACTIVE)
    have "(v = JNum 1 \<or> v = JBool True) \<or> \<not> Active (zones s1 ! zi)"
    proof (cases "v = JNum 1 \<or> v = JBool True")
      case True then show ?thesis by simp
    next
      case nv: False
      then have off: "v = JNum 0 \<or> v = JBool False"
        using False by (cases v) (auto simp: validSwitchValue_def)
      have "\<not> Active (zones s1 ! zi)"
      proof (cases "Active (zones s ! zi)")
        case True
        then have "enabled (zones s ! zi) \<and> power s" using i zi by (simp add: inv_def zoneOK_def quiet_def)
        then show ?thesis
          using off True Active_setZoneActive_INACTIVE[OF zi, of zi now] by (simp add: s1_def)
      next
        case False then show ?thesis by (simp add: s1_def)
      qed
      then show ?thesis by simp
    qed
    then have "inv (updZone zi (\<lambda>z. z\<lparr>enabled := (v = JNum 1 \<or> v = JBool True),
                 IsConfigured := (v = JNum 1 \<or> v = JBool True)\<rparr>) s1)"
      using i1 by (intro inv_enable) simp_all
    then show ?thesis using False by (simp add: setZoneEnabled_def Let_def s1_def)
  qed
qed

lemma inv_pauseTimer: "inv s \<Longrightarrow> inv (pauseTimer now s)"
  by (simp add: pauseTimer_def Let_def inv_setPower)

lemma isOpen_valveFlowListener [simp]: "isOpen (valveFlowListener f v) = isOpen v"
  by (simp add: valveFlowListener_def isOpen_def)

lemma pin_valveFlowListener [simp]: "GPIO_ValvePin (valveFlowListener f v) = GPIO_ValvePin v"
  by (simp add: valveFlowListener_def)

lemma inv_flowListeners:
  "inv (s\<lparr>zones := map (\<lambda>z. z\<lparr>valves := map (valveFlowListener f) (valves z)\<rparr>) (zones s)\<rparr>) = inv s"
  by (simp add: inv_def zoneOK_def quiet_def zoneW_def nvalves_def vopen_def vpin_def)

lemma zones_onFlow [simp]: "zones (onFlow f now s) = zones s"
  by (simp add: onFlow_def Let_def split: option.split)

lemma power_onFlow [simp]: "power (onFlow f now s) = power s"
  by (simp add: onFlow_def Let_def split: option.split)

lemma inv_zones_power: "zones s' = zones s \<Longrightarrow> power s' = power s \<Longrightarrow> inv s' = inv s"
  by (simp add: inv_def zoneOK_def quiet_def zoneW_def nvalves_def vopen_def vpin_def)

lemma emit_FLOWEVENT:
  "emit FLOWEVENT (FlowData f) now s =
     onFlow f now (s\<lparr>zones := map (\<lambda>z. z\<lparr>valves := map (valveFlowListener f) (valves z)\<rparr>) (zones s)\<rparr>)"
  by (simp add: emit_def messageServices_def Valve_WATERLEVEL_def Valve_FLOWEVENT_def
      Valve_VALVEEVENT_def)

lemma emit_WATERLEVEL: "emit WATERLEVEL m now s = s"
  by (cases m) (simp_all add: emit_def messageServices_def Valve_WATERLEVEL_def Valve_FLOWEVENT_def
      Valve_VALVEEVENT_def)

lemma inv_emit_FLOWEVENT: "inv s \<Longrightarrow> inv (emit FLOWEVENT (FlowData f) now s)"
  unfolding emit_FLOWEVENT
  by (subst inv_zones_power[where s="s\<lparr>zones := map (\<lambda>z. z\<lparr>valves := map (valveFlowListener f) (valves z)\<rparr>) (zones s)\<rparr>"])
     (simp_all add: inv_flowListeners)

lemma inv_tankReading: "inv s \<Longrightarrow> inv (tankReading ti chunks now s)"
  by (simp add: tankReading_def Let_def emit_WATERLEVEL)

lemma inv_processActiveCharacteristic: "inv s \<Longrightarrow> inv (processActiveCharacteristic c v ty s)"
  by (simp add: processActiveCharacteristic_def)

lemma inv_processRequest: "inv (fst acc) \<Longrightarrow> inv (fst (processRequest sc vc now ac acc))"
  by (auto simp: processRequest_def Let_def inv_setPower inv_setZoneActive split: reqContext.split)

lemma inv_activeCheckTimeout: "inv s \<Longrightarrow> inv (fst (activeCheckTimeout now s))"
proof -
  assume i: "inv s"
  have "inv (fst (fold (processRequest sc vc now) xs acc))" if "inv (fst acc)" for sc vc xs acc
    using that by (induction xs arbitrary: acc) (simp_all add: inv_processRequest)
  then show ?thesis using i by (simp add: activeCheckTimeout_def Let_def)
qed

lemma inv_exec: "inv s \<Longrightarrow> inv (exec a now s)"
  by (cases a)
     (simp_all add: inv_setPower inv_setZoneName inv_setZoneEnabled inv_setZoneRuntime
        inv_setZoneActive inv_zoneRunningTimer inv_pauseTimer inv_emit_FLOWEVENT inv_tankReading
        inv_processActiveCharacteristic inv_activeCheckTimeout)

lemma isOpen_newValve [simp]: "\<not> isOpen (newValve p)"
  by (simp add: newValve_def isOpen_def)




section \<open>The leak flag\<close>

lemma frame_leakDetected: "frame s' = frame s \<Longrightarrow> leakDetected s' = leakDetected s"
  by (simp add: frame_def)

lemma leakDetected_setPower: "leakDetected (setPower v now s) = leakDetected s"
  using frame_leakDetected[OF frame_cancelRunningZones, of now "s\<lparr>sysInUse := False\<rparr>"]
  by (simp add: setPower_def Let_def)

lemma leakDetected_processRequest:
  "leakDetected (fst (processRequest sc vc now ac acc)) = leakDetected (fst acc)"
  by (simp add: processRequest_def Let_def leakDetected_setPower
      frame_leakDetected[OF frame_setZoneActive] split: reqContext.split)

lemma leakDetected_activeCheckTimeout:
  "leakDetected (fst (activeCheckTimeout now s)) = leakDetected s"
proof -
  have "leakDetected (fst (fold (processRequest sc vc now) xs acc)) = leakDetected (fst acc)"
    for sc vc xs acc
    by (induction xs arbitrary: acc) (simp_all add: leakDetected_processRequest)
  then show ?thesis by (simp add: activeCheckTimeout_def Let_def)
qed

lemma leakDetected_other_steps:
  assumes h: "\<forall>g. a \<noteq> FlowEvent g"
  shows "leakDetected (exec a now s) = leakDetected s"
proof (cases a)
  case (SetPower v)
  then show ?thesis by (simp add: leakDetected_setPower)
next
  case (SetZoneName zi v)
  then show ?thesis by (cases v) (simp_all add: setZoneName_def updZone_def)
next
  case (SetZoneEnabled zi v)
  then show ?thesis
    by (simp add: setZoneEnabled_def Let_def updZone_def
        frame_leakDetected[OF frame_setZoneActive_INACTIVE])
next
  case (SetZoneRuntime zi v)
  then show ?thesis by (cases v) (simp_all add: setZoneRuntime_def updZone_def)
next
  case (SetZoneActive zi v)
  then show ?thesis by (simp add: frame_leakDetected[OF frame_setZoneActive])
next
  case (ZoneRunningTimer zi)
  then show ?thesis by (simp add: frame_leakDetected[OF frame_zoneRunningTimer])
next
  case PauseTimer
  then show ?thesis by (simp add: pauseTimer_def Let_def leakDetected_setPower)
next
  case (FlowEvent f)
  then show ?thesis using h by simp
next
  case (TankReading ti chunks)
  then show ?thesis by (simp add: tankReading_def Let_def emit_WATERLEVEL)
next
  case (ActiveRequest c v ty)
  then show ?thesis by (simp add: processActiveCharacteristic_def)
next
  case ActiveCheckTimeout
  then show ?thesis by (simp add: leakDetected_activeCheckTimeout)
qed

lemma numberRunningZones_listeners [simp]:
  "numberRunningZones (s\<lparr>zones := map (\<lambda>z. z\<lparr>valves := map (valveFlowListener f) (valves z)\<rparr>) (zones s)\<rparr>)
     = numberRunningZones s"
  by (simp add: numberRunningZones_def filter_map comp_def)

lemma numberRunningZones_fields [simp]:
  "numberRunningZones (s\<lparr>flowData := a\<rparr>) = numberRunningZones s"
  "numberRunningZones (s\<lparr>leakDetected := b\<rparr>) = numberRunningZones s"
  "numberRunningZones (s\<lparr>leakSensorService := c\<rparr>) = numberRunningZones s"
  "numberRunningZones (s\<lparr>log := d\<rparr>) = numberRunningZones s"
  by (simp_all add: numberRunningZones_def)

lemma nonZeroPercent_0: "nonZeroVolume fd = 0 \<Longrightarrow> nonZeroPercent fd = 0"
  by (simp add: nonZeroPercent_def)

lemma flowData_onFlow: "flowData (onFlow m now s) = pushFlow m (flowData s)"
  by (simp add: onFlow_def Let_def split: option.split)

lemma onFlow_running: "numberRunningZones s \<noteq> 0 \<Longrightarrow> leakDetected (onFlow m now s) = leakDetected s"
  by (simp add: onFlow_def Let_def split: option.split)

lemma onFlow_raised:
  "\<not> leakDetected s \<Longrightarrow> leakDetected (onFlow m now s) \<Longrightarrow>
   numberRunningZones s = 0 \<and> nonZeroPercent (pushFlow m (flowData s)) > 80"
  by (simp add: onFlow_def Let_def split: option.splits if_splits)

lemma onFlow_cleared:
  "leakDetected s \<Longrightarrow> \<not> leakDetected (onFlow m now s) \<Longrightarrow>
   numberRunningZones s = 0 \<and> nonZeroPercent (pushFlow m (flowData s)) = 0"
  by (simp add: onFlow_def Let_def nonZeroPercent_0 split: option.splits if_splits)

section \<open>The debounce\<close>

lemma length_filter_map_cong:
  "map f xs = map f ys \<Longrightarrow> length (filter f xs) = length (filter f ys)"
proof (induction xs arbitrary: ys)
  case Nil
  then show ?case by simp
next
  case (Cons x xs)
  then show ?case by (cases ys) auto
qed

lemma numberEnabledZones_zcfg:
  assumes e: "map zcfg (zones s') = map zcfg (zones s)"
  shows "numberEnabledZones s' = numberEnabledZones s"
proof -
  have "map (\<lambda>c. fst (snd (snd (snd (snd (snd c)))))) (map zcfg (zones s'))
        = map (\<lambda>c. fst (snd (snd (snd (snd (snd c)))))) (map zcfg (zones s))"
    using e by simp
  then have m: "map IsConfigured (zones s') = map IsConfigured (zones s)"
    by (simp add: zcfg_def comp_def)
  show ?thesis unfolding numberEnabledZones_def using m by (rule length_filter_map_cong)
qed

lemma frame_zcfg: "frame s' = frame s \<Longrightarrow> map zcfg (zones s') = map zcfg (zones s)"
  by (simp add: frame_def)

lemma zcfg_setPower: "map zcfg (zones (setPower v now s)) = map zcfg (zones s)"
  using frame_zcfg[OF frame_cancelRunningZones, of now "s\<lparr>sysInUse := False\<rparr>"]
  by (simp add: setPower_def Let_def)

lemma numberEnabledZones_setPower: "numberEnabledZones (setPower v now s) = numberEnabledZones s"
  by (rule numberEnabledZones_zcfg[OF zcfg_setPower])

lemma numberEnabledZones_pending [simp]:
  "numberEnabledZones (s\<lparr>pending := p\<rparr>) = numberEnabledZones s"
  by (simp add: numberEnabledZones_def)

lemma processRequest_system:
  assumes "isSystemRequest ac" "takeaction ac" "vc \<noteq> 1"
  shows "processRequest sc vc now ac (s, calls)
           = (setPower (ac_value ac) now s, calls @ [CallSetPower (ac_value ac)])"
  using assms by (auto simp: processRequest_def Let_def isSystemRequest_def)

lemma processRequest_valve_suppressed:
  assumes "isValveRequest ac" "numberEnabledZones s = vc"
  shows "processRequest 1 vc now ac (s, calls)
           = (s\<lparr>pending := pending s @ [(now + 500, SuppressedRevert (ac_context ac))]\<rparr>,
              calls @ [ScheduleRevert (ac_context ac)])"
  using assms by (simp add: processRequest_def Let_def isValveRequest_def)

lemma request_kinds: "isSystemRequest ac \<noteq> isValveRequest ac"
  by (cases "ac_type ac") (simp_all add: isSystemRequest_def isValveRequest_def)

lemma batch_fold:
  assumes "\<forall>ac\<in>set xs. takeaction ac" "numberEnabledZones s = vc" "vc \<noteq> 1"
  shows "snd (fold (processRequest 1 vc now) xs (s, calls))
           = calls @ map (\<lambda>ac. if isValveRequest ac then ScheduleRevert (ac_context ac)
                               else CallSetPower (ac_value ac)) xs"
  using assms
proof (induction xs arbitrary: s calls)
  case Nil
  then show ?case by simp
next
  case (Cons ac xs)
  show ?case
  proof (cases "isValveRequest ac")
    case True
    have st: "processRequest 1 vc now ac (s, calls)
           = (s\<lparr>pending := pending s @ [(now + 500, SuppressedRevert (ac_context ac))]\<rparr>,
              calls @ [ScheduleRevert (ac_context ac)])"
      using True Cons.prems(2) by (rule processRequest_valve_suppressed)
    show ?thesis
      using Cons.IH[of "s\<lparr>pending := pending s @ [(now + 500, SuppressedRevert (ac_context ac))]\<rparr>"
                       "calls @ [ScheduleRevert (ac_context ac)]"]
        Cons.prems True st by simp
  next
    case False
    then have sys: "isSystemRequest ac" using request_kinds[of ac] by simp
    have st: "processRequest 1 vc now ac (s, calls)
           = (setPower (ac_value ac) now s, calls @ [CallSetPower (ac_value ac)])"
      using sys Cons.prems(1,3) by (intro processRequest_system) simp_all
    show ?thesis
      using Cons.IH[of "setPower (ac_value ac) now s" "calls @ [CallSetPower (ac_value ac)]"]
        Cons.prems False st by (simp add: numberEnabledZones_setPower)
  qed
qed

section \<open>Stopping the running zones\<close>

lemma stopped_deactivateZone:
  assumes "zi < length (zones s)"
  shows "stopped (zones (deactivateZone zi now s) ! zi)"
proof -
  let ?s' = "deactivateZone zi now s"
  have fr: "frame ?s' = frame s" by (rule frame_deactivateZone)
  have nv: "nvalves ?s' zi = nvalves s zi" using fr assms by (rule nvalves_frame)
  have "GPIO_ValvePin (valves (zones ?s' ! zi) ! i) = None"
    if "i < length (valves (zones ?s' ! zi))" "isOpen (valves (zones ?s' ! zi) ! i)" for i
  proof -
    have i: "i < nvalves s zi" using that(1) nv by (simp add: nvalves_def)
    have "vopen s zi i \<and> vpin s zi i = None"
      using vopen_deactivateZone[OF assms i, of now] that(2) by (simp add: vopen_def)
    then show ?thesis using vpin_frame[OF fr assms i] by (simp add: vpin_def)
  qed
  then show ?thesis
    using Active_deactivateZone[OF assms, of now] by (simp add: stopped_def)
qed








subsection \<open>The countdown of a running zone\<close>

lemma tickValve_closed: "\<not> vopen s zi k \<Longrightarrow> tickValve e zi now k s = s"
  by (simp add: tickValve_def Let_def vopen_def)

lemma tickValve_not_due:
  "\<not> (valveEndTime e (SetDuration (zones s ! zi)) (nvalves s zi) k \<le> of_int (nowSec now)
      \<and> k + 1 < nvalves s zi) \<Longrightarrow> tickValve e zi now k s = s"
  by (auto simp: tickValve_def Let_def nvalves_def)

lemma tick_fold_idle:
  assumes "\<forall>k\<in>set xs. vopen s zi k \<longrightarrow>
             \<not> (valveEndTime e (SetDuration (zones s ! zi)) (nvalves s zi) k \<le> of_int (nowSec now)
                \<and> k + 1 < nvalves s zi)"
  shows "fold (tickValve e zi now) xs s = s"
  using assms
proof (induction xs)
  case Nil
  then show ?case by simp
next
  case (Cons x xs)
  have "tickValve e zi now x s = s"
    using Cons.prems tickValve_closed[of s zi x e now] tickValve_not_due[of e s zi x now]
    by (cases "vopen s zi x") auto
  then show ?case using Cons by simp
qed

lemma SetDuration_frame:
  assumes "frame s' = frame s" "zi < length (zones s)"
  shows "SetDuration (zones s' ! zi) = SetDuration (zones s ! zi)"
proof -
  have "map zcfg (zones s') = map zcfg (zones s)" using assms(1) by (rule frame_zcfg)
  then have "zcfg (zones s' ! zi) = zcfg (zones s ! zi)"
    using assms(2) by (metis length_map nth_map)
  then show ?thesis by (simp add: zcfg_def)
qed

text \<open>The state the countdown starts from: only the remaining duration is rewritten.\<close>

lemma remaining_props:
  assumes "zi < length (zones s)"
  shows "frame (updZone zi (\<lambda>z. z\<lparr>RemainingDuration := r\<rparr>) s) = frame s"
    and "map zrt (zones (updZone zi (\<lambda>z. z\<lparr>RemainingDuration := r\<rparr>) s)) = map zrt (zones s)"
    and "vopen (updZone zi (\<lambda>z. z\<lparr>RemainingDuration := r\<rparr>) s) zi k = vopen s zi k"
    and "nvalves (updZone zi (\<lambda>z. z\<lparr>RemainingDuration := r\<rparr>) s) zi = nvalves s zi"
    and "vpin (updZone zi (\<lambda>z. z\<lparr>RemainingDuration := r\<rparr>) s) zi k = vpin s zi k"
    and "SetDuration (zones (updZone zi (\<lambda>z. z\<lparr>RemainingDuration := r\<rparr>) s) ! zi)
           = SetDuration (zones s ! zi)"
proof -
  show "frame (updZone zi (\<lambda>z. z\<lparr>RemainingDuration := r\<rparr>) s) = frame s"
    by (rule frame_updZone) (simp add: zcfg_def)
qed (use assms in \<open>simp_all add: updZone_def map_update_same zrt_def vopen_def nvalves_def vpin_def\<close>)

lemma zoneRunningTimer_before_end:
  assumes "zi < length (zones s)" "timer (zones s ! zi) = Some e" "nowSec now < e"
  shows "zoneRunningTimer zi now s =
           fold (tickValve e zi now) [0..<nvalves s zi]
             (updZone zi (\<lambda>z. z\<lparr>RemainingDuration := e - nowSec now\<rparr>) s)"
  using assms by (simp add: zoneRunningTimer_def Let_def nvalves_def)

lemma zoneRunningTimer_at_end:
  assumes "zi < length (zones s)" "timer (zones s ! zi) = Some e" "nowSec now = e"
  shows "zoneRunningTimer zi now s = s"
  using assms by (simp add: zoneRunningTimer_def Let_def)

lemma zoneRunningTimer_after_end:
  assumes "zi < length (zones s)" "timer (zones s ! zi) = Some e" "nowSec now > e"
          "enabled (zones s ! zi)" "power s"
  shows "zoneRunningTimer zi now s = deactivateZone zi now s"
  using assms
  by (simp add: zoneRunningTimer_def Let_def setZoneActive_def zoneGuard_def validSwitchValue_def
      isActivate_def isDeactivate_def)

lemma tick_idle:
  assumes "zi < length (zones s)" "timer (zones s ! zi) = Some e" "nowSec now < e"
      and "\<forall>k<nvalves s zi. vopen s zi k \<longrightarrow>
             \<not> (valveEndTime e (SetDuration (zones s ! zi)) (nvalves s zi) k \<le> of_int (nowSec now)
                \<and> k + 1 < nvalves s zi)"
  shows "zoneRunningTimer zi now s = updZone zi (\<lambda>z. z\<lparr>RemainingDuration := e - nowSec now\<rparr>) s"
proof -
  let ?s0 = "updZone zi (\<lambda>z. z\<lparr>RemainingDuration := e - nowSec now\<rparr>) s"
  have "fold (tickValve e zi now) [0..<nvalves s zi] ?s0 = ?s0"
    using assms(4) remaining_props(3,4,6)[OF assms(1)] by (intro tick_fold_idle) simp
  then show ?thesis using zoneRunningTimer_before_end[OF assms(1-3)] by simp
qed

lemma tick_handover:
  assumes zi: "zi < length (zones s)" and tm: "timer (zones s ! zi) = Some e"
      and before: "nowSec now < e"
      and i1: "i + 1 < nvalves s zi"
      and only: "\<forall>k<nvalves s zi. vopen s zi k \<longleftrightarrow> k = i"
      and pins: "vpin s zi i \<noteq> None" "vpin s zi (i + 1) \<noteq> None"
      and due: "valveEndTime e (SetDuration (zones s ! zi)) (nvalves s zi) i \<le> of_int (nowSec now)"
      and notnext: "of_int (nowSec now) < valveEndTime e (SetDuration (zones s ! zi)) (nvalves s zi) (i + 1)"
  shows "(\<forall>k<nvalves s zi. vopen (zoneRunningTimer zi now s) zi k \<longleftrightarrow> k = i + 1)
         \<and> frame (zoneRunningTimer zi now s) = frame s
         \<and> map zrt (zones (zoneRunningTimer zi now s)) = map zrt (zones s)"
proof -
  define N where "N = nvalves s zi"
  define T where "T = SetDuration (zones s ! zi)"
  define s0 where "s0 = updZone zi (\<lambda>z. z\<lparr>RemainingDuration := e - nowSec now\<rparr>) s"
  define s1 where "s1 = valve_close zi i now s0"
  define s2 where "s2 = valve_open zi (i + 1) now s1"
  note rp = remaining_props[OF zi, of "e - nowSec now", folded s0_def]
  have zi0: "zi < length (zones s0)" by (simp add: s0_def zi)
  have N0: "nvalves s0 zi = N" using rp(4) by (simp add: N_def)
  have T0: "SetDuration (zones s0 ! zi) = T" using rp(6) by (simp add: T_def)
  have iN: "i < N" "i + 1 < N" using i1 by (simp_all add: N_def)
  have fr1: "frame s1 = frame s0" by (simp add: s1_def frame_valve_close)
  have fr2: "frame s2 = frame s1" by (simp add: s2_def frame_valve_open)
  have zi1: "zi < length (zones s1)" using length_zones_frame[OF fr1] zi0 by simp
  have N1: "nvalves s1 zi = N" using nvalves_frame[OF fr1 zi0] N0 by simp
  have N2: "nvalves s2 zi = N" using nvalves_frame[OF fr2 zi1] N1 by simp
  have T2: "SetDuration (zones s2 ! zi) = T"
    using SetDuration_frame[OF fr2 zi1] SetDuration_frame[OF fr1 zi0] T0 by simp
  have pin0: "vpin s0 zi i \<noteq> None" "vpin s0 zi (i + 1) \<noteq> None" using pins rp(5) by simp_all
  have pin1: "vpin s1 zi (i + 1) \<noteq> None"
    using vpin_frame[OF fr1 zi0, of "i + 1"] N0 iN pin0 by simp
  have open0: "\<forall>k<N. vopen s0 zi k \<longleftrightarrow> k = i" using only rp(3) by (simp add: N_def)
  have open1: "\<forall>k<N. \<not> vopen s1 zi k"
    using vopen_valve_close[OF zi0, of i _ now] N0 iN open0 pin0 by (auto simp: s1_def)
  have open2: "\<forall>k<N. vopen s2 zi k \<longleftrightarrow> k = i + 1"
    using vopen_valve_open[OF zi1, of "i + 1" _ now] N1 iN open1 pin1 by (auto simp: s2_def)
  have step_i: "tickValve e zi now i s0 = s2"
    using open0 iN due T0 N0
    by (auto simp: tickValve_def Let_def s1_def s2_def vopen_def nvalves_def T_def N_def)
  have split: "[0..<N] = [0..<i] @ i # (i + 1) # [i + 2..<N]"
  proof -
    have "[0..<N] = [0..<i] @ [i..<N]" using iN(1) upt_add_eq_append[of 0 i "N - i"] by simp
    moreover have "[i..<N] = i # [i + 1..<N]" using iN(1) by (simp add: upt_conv_Cons)
    moreover have "[i + 1..<N] = (i + 1) # [i + 2..<N]" using iN(2) by (simp add: upt_conv_Cons)
    ultimately show ?thesis by simp
  qed
  have f1: "fold (tickValve e zi now) [0..<i] s0 = s0"
    using open0 iN by (intro tick_fold_idle) auto
  have f3: "tickValve e zi now (i + 1) s2 = s2"
    using notnext by (intro tickValve_not_due) (simp add: T2 N2 T_def N_def)
  have f4: "fold (tickValve e zi now) [i + 2..<N] s2 = s2"
    using open2 N2 by (intro tick_fold_idle) auto
  have "fold (tickValve e zi now) [0..<N] s0 = s2"
    unfolding split using f1 step_i f3 f4 by simp
  then have res: "zoneRunningTimer zi now s = s2"
    using zoneRunningTimer_before_end[OF zi tm before] by (simp add: N_def s0_def)
  have fr: "frame s2 = frame s" using fr2 fr1 rp(1) by simp
  have zr: "map zrt (zones s2) = map zrt (zones s)"
    using rp(2) by (simp add: s2_def s1_def zrt_valve_open zrt_valve_close)
  show ?thesis unfolding res using open2 fr zr by (simp add: N_def)
qed

lemma countdownAt_Suc: "countdownAt (Suc n) = zoneRunningTimer 0 (1000 * int (Suc n)) (countdownAt n)"
proof -
  have "[1..<Suc (Suc n)] = [1..<Suc n] @ [Suc n]" by simp
  then show ?thesis unfolding countdownAt_def run_def by (simp del: upt_Suc)
qed

lemma countdown_start:
  "length (zones (countdownAt 0)) = 2"
  "timer (zones (countdownAt 0) ! 0) = Some 300"
  "Active (zones (countdownAt 0) ! 0)"
  "SetDuration (zones (countdownAt 0) ! 0) = 300"
  "nvalves (countdownAt 0) 0 = 3"
  "vpin (countdownAt 0) 0 0 \<noteq> None" "vpin (countdownAt 0) 0 1 \<noteq> None" "vpin (countdownAt 0) 0 2 \<noteq> None"
  "enabled (zones (countdownAt 0) ! 0)"
  "power (countdownAt 0)"
  "vopen (countdownAt 0) 0 0" "\<not> vopen (countdownAt 0) 0 1" "\<not> vopen (countdownAt 0) 0 2"
  by code_simp+

lemmas countdown_start_Suc = countdown_start[unfolded One_nat_def]

lemma valveEndTime_scenario:
  "valveEndTime 300 300 3 0 = 100" "valveEndTime 300 300 3 (Suc 0) = 200"
  "valveEndTime 300 300 3 2 = 300"
  by (simp_all add: valveEndTime_def)

lemma less_3_cases: "k < (3::nat) \<longleftrightarrow> k = 0 \<or> k = 1 \<or> k = 2"
  by auto

lemma running_facts:
  assumes "running i s"
  shows "length (zones s) = 2" "0 < length (zones s)"
    and "timer (zones s ! 0) = Some 300" "Active (zones s ! 0)"
    and "SetDuration (zones s ! 0) = 300" "nvalves s 0 = 3"
    and "\<And>k. k < 3 \<Longrightarrow> vpin s 0 k \<noteq> None"
    and "enabled (zones s ! 0)" "power s"
proof -
  have fr: "frame s = frame (countdownAt 0)"
    and zr: "map zrt (zones s) = map zrt (zones (countdownAt 0))"
    using assms by (simp_all add: running_def)
  have l0: "0 < length (zones (countdownAt 0))" by (simp add: countdown_start)
  show "length (zones s) = 2" using length_zones_frame[OF fr] by (simp add: countdown_start)
  then show "0 < length (zones s)" by simp
  show "timer (zones s ! 0) = Some 300" "Active (zones s ! 0)"
    using Active_zrt[OF zr l0] by (simp_all add: countdown_start)
  show "SetDuration (zones s ! 0) = 300"
    using SetDuration_frame[OF fr l0] by (simp add: countdown_start)
  show "nvalves s 0 = 3" using nvalves_frame[OF fr l0] by (simp add: countdown_start)
  show "vpin s 0 k \<noteq> None" if "k < 3" for k
    using vpin_frame[OF fr l0, of k] that countdown_start_Suc(5-8) by (auto simp: less_3_cases)
  show "enabled (zones s ! 0)" using enabled_frame[OF fr l0] by (simp add: countdown_start)
  show "power s" using frame_power[OF fr] by (simp add: countdown_start)
qed

lemma running_start: "running 0 (countdownAt 0)"
  using countdown_start_Suc(11-13) by (auto simp: running_def less_3_cases)

lemma nowSec_tick [simp]: "nowSec (1000 * int n) = int n"
  by (simp add: nowSec_def)

lemma running_idle:
  assumes r: "running i s" and n: "n < 300"
      and nd: "\<not> (valveEndTime 300 300 3 i \<le> of_nat n \<and> i + 1 < 3)"
  shows "running i (zoneRunningTimer 0 (1000 * int n) s)"
proof -
  note f = running_facts[OF r]
  have op: "\<forall>k<3. vopen s 0 k \<longleftrightarrow> k = i" using r by (simp add: running_def)
  have "zoneRunningTimer 0 (1000 * int n) s
          = updZone 0 (\<lambda>z. z\<lparr>RemainingDuration := 300 - nowSec (1000 * int n)\<rparr>) s"
  proof (rule tick_idle[OF f(2) f(3)])
    show "nowSec (1000 * int n) < 300" using n by simp
    show "\<forall>k<nvalves s 0. vopen s 0 k \<longrightarrow>
            \<not> (valveEndTime 300 (SetDuration (zones s ! 0)) (nvalves s 0) k
                  \<le> of_int (nowSec (1000 * int n)) \<and> k + 1 < nvalves s 0)"
      using op nd by (auto simp: f(5,6))
  qed
  then show ?thesis
    using r remaining_props(1,2,3)[OF f(2)] by (simp add: running_def)
qed

lemma running_handover:
  assumes r: "running i s" and n: "n < 300" and i: "i + 1 < 3"
      and due: "valveEndTime 300 300 3 i \<le> of_nat n"
      and nn: "of_nat n < valveEndTime 300 300 3 (i + 1)"
  shows "running (i + 1) (zoneRunningTimer 0 (1000 * int n) s)"
proof -
  note f = running_facts[OF r]
  have op: "\<forall>k<3. vopen s 0 k \<longleftrightarrow> k = i" using r by (simp add: running_def)
  have "(\<forall>k<nvalves s 0. vopen (zoneRunningTimer 0 (1000 * int n) s) 0 k \<longleftrightarrow> k = i + 1)
         \<and> frame (zoneRunningTimer 0 (1000 * int n) s) = frame s
         \<and> map zrt (zones (zoneRunningTimer 0 (1000 * int n) s)) = map zrt (zones s)"
  proof (rule tick_handover[OF f(2) f(3)])
    show "nowSec (1000 * int n) < 300" using n by simp
    show "i + 1 < nvalves s 0" using i by (simp add: f(6))
    show "\<forall>k<nvalves s 0. vopen s 0 k = (k = i)" using op by (simp add: f(6))
    show "vpin s 0 i \<noteq> None" "vpin s 0 (i + 1) \<noteq> None" using f(7) i by simp_all
    show "valveEndTime 300 (SetDuration (zones s ! 0)) (nvalves s 0) i \<le> of_int (nowSec (1000 * int n))"
      using due by (simp add: f(5,6))
    show "of_int (nowSec (1000 * int n)) < valveEndTime 300 (SetDuration (zones s ! 0)) (nvalves s 0) (i + 1)"
      using nn by (simp add: f(5,6))
  qed
  then show ?thesis using r by (simp add: running_def f(6))
qed

lemma running_at_end:
  assumes r: "running i s"
  shows "zoneRunningTimer 0 (1000 * int 300) s = s"
  using running_facts(2,3)[OF r] by (intro zoneRunningTimer_at_end[where e = 300]) (simp_all add: nowSec_def)

lemma countdown_running: "n \<le> 300 \<Longrightarrow> running (slice n) (countdownAt n)"
proof (induction n)
  case 0
  then show ?case using running_start by (simp add: slice_def)
next
  case (Suc n)
  then have r: "running (slice n) (countdownAt n)" by simp
  consider (h1) "Suc n = 100" | (h2) "Suc n = 200" | (e) "Suc n = 300"
    | (idle) "Suc n \<noteq> 100" "Suc n \<noteq> 200" "Suc n < 300"
    using Suc.prems by linarith
  then show ?case
  proof cases
    case h1
    then have s: "slice n = 0" "slice (Suc n) = 0 + 1" by (auto simp: slice_def)
    have v: "valveEndTime 300 300 3 0 \<le> of_nat (Suc n)"
            "of_nat (Suc n) < valveEndTime 300 300 3 (0 + 1)"
      using h1 by (simp_all add: valveEndTime_def)
    show ?thesis unfolding countdownAt_Suc s(2)
      using r[unfolded s(1)] _ _ v
    proof (rule running_handover)
      show "Suc n < 300" using h1 by simp
      show "0 + 1 < (3::nat)" by simp
    qed
  next
    case h2
    then have s: "slice n = Suc 0" "slice (Suc n) = Suc 0 + 1" by (auto simp: slice_def)
    have v: "valveEndTime 300 300 3 (Suc 0) \<le> of_nat (Suc n)"
            "of_nat (Suc n) < valveEndTime 300 300 3 (Suc 0 + 1)"
      using h2 by (simp_all add: valveEndTime_def)
    show ?thesis unfolding countdownAt_Suc s(2)
      using r[unfolded s(1)] _ _ v
    proof (rule running_handover)
      show "Suc n < 300" using h2 by simp
      show "Suc 0 + 1 < 3" by simp
    qed
  next
    case e
    then have s: "slice (Suc n) = slice n" by (auto simp: slice_def)
    show ?thesis unfolding countdownAt_Suc s
      using running_at_end[OF r] r e by simp
  next
    case idle
    then have s: "slice (Suc n) = slice n" by (auto simp: slice_def)
    have nd: "\<not> (valveEndTime 300 300 3 (slice n) \<le> of_nat (Suc n) \<and> slice n + 1 < 3)"
      using idle by (auto simp: slice_def valveEndTime_scenario)
    show ?thesis unfolding countdownAt_Suc s
      using r idle(3) nd by (rule running_idle)
  qed
qed

lemma list3:
  assumes "length xs = 3"
  obtains a b c where "xs = [a, b, c]"
  using assms by (auto simp: numeral_3_eq_3 length_Suc_conv)

lemma valves_of_running:
  assumes "running i s"
  shows "map isOpen (valves (zones s ! 0)) = [i = 0, i = 1, i = 2]"
proof -
  have l: "length (valves (zones s ! 0)) = 3"
    using running_facts(6)[OF assms] by (simp add: nvalves_def)
  then obtain a b c where v: "valves (zones s ! 0) = [a, b, c]" by (rule list3)
  have op: "\<And>k. k < 3 \<Longrightarrow> isOpen (valves (zones s ! 0) ! k) \<longleftrightarrow> k = i"
    using assms by (simp add: running_def vopen_def)
  have "isOpen a \<longleftrightarrow> i = 0" "isOpen b \<longleftrightarrow> i = 1" "isOpen c \<longleftrightarrow> i = 2"
    using op[of 0] op[of 1] op[of 2] by (auto simp: v)
  then show ?thesis by (simp add: v)
qed

lemma countdown_slices:
  assumes "n \<le> 300"
  shows "Active (zones (countdownAt n) ! 0)"
    and "map isOpen (valves (zones (countdownAt n) ! 0)) = [n < 100, 100 \<le> n \<and> n < 200, 200 \<le> n]"
proof -
  note r = countdown_running[OF assms]
  show "Active (zones (countdownAt n) ! 0)" by (rule running_facts(4)[OF r])
  show "map isOpen (valves (zones (countdownAt n) ! 0)) = [n < 100, 100 \<le> n \<and> n < 200, 200 \<le> n]"
    using valves_of_running[OF r] by (auto simp: slice_def)
qed

lemma countdown_end:
  "\<not> Active (zones (countdownAt 301) ! 0)"
  "map isOpen (valves (zones (countdownAt 301) ! 0)) = [False, False, False]"
proof -
  have r: "running 2 (countdownAt 300)" using countdown_running[of 300] by (simp add: slice_def)
  note f = running_facts[OF r]
  have "countdownAt 301 = zoneRunningTimer 0 (1000 * int 301) (countdownAt 300)"
    using countdownAt_Suc[of 300] by simp
  also have "\<dots> = deactivateZone 0 (1000 * int 301) (countdownAt 300)"
    using f(2,3,8,9) by (intro zoneRunningTimer_after_end[where e = 300]) (simp_all add: nowSec_def)
  finally have eq: "countdownAt 301 = deactivateZone 0 (1000 * int 301) (countdownAt 300)" .
  show "\<not> Active (zones (countdownAt 301) ! 0)"
    unfolding eq using Active_deactivateZone(1)[OF f(2)] by simp
  have fr: "frame (countdownAt 301) = frame (countdownAt 300)"
    unfolding eq by (rule frame_deactivateZone)
  have l: "length (valves (zones (countdownAt 301) ! 0)) = 3"
    using nvalves_frame[OF fr f(2)] f(6) by (simp add: nvalves_def)
  then obtain a b c where v: "valves (zones (countdownAt 301) ! 0) = [a, b, c]" by (rule list3)
  have cl: "\<not> isOpen (valves (zones (countdownAt 301) ! 0) ! k)" if "k < 3" for k
    using vopen_deactivateZone[OF f(2), of k "1000 * int 301"] f(6) f(7)[OF that] that
    unfolding eq by (simp add: vopen_def)
  have "\<not> isOpen a" "\<not> isOpen b" "\<not> isOpen c"
    using cl[of 0] cl[of 1] cl[of 2] by (simp_all add: v)
  then show "map isOpen (valves (zones (countdownAt 301) ! 0)) = [False, False, False]"
    by (simp add: v)
qed

section \<open>The timers\<close>

subsection \<open>Which operations write the list of pending timeouts\<close>

lemma pending_updZone [simp]: "pending (updZone zi f s) = pending s"
  by (simp add: updZone_def)

lemma pending_updValve [simp]: "pending (updValve zi vi g s) = pending s"
  by (simp add: updValve_def)

lemma pending_onValveEvent [simp]: "pending (onValveEvent zi st t w d s) = pending s"
  by (cases st) (simp_all add: onValveEvent_def Let_def)

lemma pending_valve_open [simp]: "pending (valve_open zi vi now s) = pending s"
  by (simp add: valve_open_def emit_VALVEEVENT split: option.split)

lemma pending_valve_close [simp]: "pending (valve_close zi vi now s) = pending s"
  by (simp add: valve_close_def Let_def emit_VALVEEVENT split: option.split)

lemma pending_closeOpenValves [simp]: "pending (closeOpenValves zi now s) = pending s"
  unfolding closeOpenValves_def by (rule fold_same) simp

lemma pending_deactivateZone [simp]: "pending (deactivateZone zi now s) = pending s"
  by (simp add: deactivateZone_def)

lemma pending_setZoneActive_INACTIVE [simp]: "pending (setZoneActive_INACTIVE zi now s) = pending s"
  by (simp add: setZoneActive_INACTIVE_def)

lemma pending_cancelRunningZones [simp]: "pending (cancelRunningZones now s) = pending s"
  unfolding cancelRunningZones_def by (rule fold_same) simp

lemma pending_activateZone [simp]: "pending (activateZone zi now s) = pending s"
  by (simp add: activateZone_def Let_def)

lemma pending_tickValve [simp]: "pending (tickValve e zi now i s) = pending s"
  by (simp add: tickValve_def Let_def)

lemma pending_tick_fold [simp]: "pending (fold (tickValve e zi now) xs s) = pending s"
  by (rule fold_same) simp

lemma pending_zoneRunningTimer [simp]: "pending (zoneRunningTimer zi now s) = pending s"
  by (simp add: zoneRunningTimer_def Let_def setZoneActive_def isActivate_def
      frame_power[OF frame_deactivateZone] split: option.split)

lemma pending_setPower [simp]: "pending (setPower v now s) = pending s"
  by (simp add: setPower_def Let_def)

lemma pending_pauseTimer [simp]: "pending (pauseTimer now s) = pending s"
  by (simp add: pauseTimer_def Let_def)

lemma pending_setZoneName [simp]: "pending (setZoneName zi v s) = pending s"
  by (cases v) (simp_all add: setZoneName_def)

lemma pending_setZoneRuntime [simp]: "pending (setZoneRuntime zi v s) = pending s"
  by (cases v) (simp_all add: setZoneRuntime_def)

lemma pending_setZoneEnabled [simp]: "pending (setZoneEnabled zi v now s) = pending s"
  by (simp add: setZoneEnabled_def Let_def)

lemma pending_onFlow [simp]: "pending (onFlow f now s) = pending s"
  by (simp add: onFlow_def Let_def split: option.split)

lemma pending_emit_FLOWEVENT [simp]: "pending (emit FLOWEVENT (FlowData f) now s) = pending s"
  by (simp add: emit_FLOWEVENT)

lemma pending_tankReading [simp]: "pending (tankReading ti chunks now s) = pending s"
  by (simp add: tankReading_def Let_def emit_WATERLEVEL)

lemma pending_processActiveCharacteristic [simp]:
  "pending (processActiveCharacteristic c v ty s) = pending s"
  by (simp add: processActiveCharacteristic_def)

subsection \<open>Zones that an operation keeps\<close>






















subsection \<open>The invariant of the running system\<close>





















text \<open>Scheduling the revert while the power is off.\<close>

lemma zoneCalm_pending [simp]: "zoneCalm due (s\<lparr>pending := p\<rparr>) k = zoneCalm due s k"
  by (simp add: zoneCalm_def quiet_def nvalves_def vopen_def)

lemma single_pending [simp]: "single (s\<lparr>pending := p\<rparr>) = single s"
  by (simp add: single_def)

lemma revertOK_pending [simp]: "revertOK t (s\<lparr>pending := p\<rparr>) x = revertOK t s x"
  by (simp add: revertOK_def split: timeout.split)





















subsection \<open>One running zone\<close>



subsection \<open>Two runs\<close>



section \<open>The claims\<close>

text \<open>
  C1 (valve slices of a running zone), as amended. The interval callback of a zone whose
  countdown ends at \<open>endTime\<close> computes for an open valve \<open>i\<close> the end time
  \<open>valveEndTime endTime T N i\<close> = \<open>endTime - (T / N) * (N - i - 1)\<close>, with \<open>T\<close> the
  \<^verbatim>\<open>SetDuration\<close> and \<open>N\<close> the number of valves. While the clock is before
  \<open>endTime\<close>: when valve \<open>i\<close> is the open one, is not the last, has reached its end
  time and the next valve has not reached its own, the callback leaves exactly valve
  \<open>i + 1\<close> open; when no open valve has reached its end time, or the open one is the
  last, the valves stay as they are. At the second \<open>endTime\<close> itself the callback
  changes nothing; once the clock is past \<open>endTime\<close> it stops the zone. For 300 s and
  three valves the end times are 100, 200 and 300; after the callback of second
  \<open>n \<le> 300\<close> the zone is active, with valve 0 open for \<open>n < 100\<close>, valve 1 for
  \<open>100 \<le> n < 200\<close> and valve 2 for \<open>200 \<le> n \<le> 300\<close>; the callback of second 301
  makes the zone inactive with all valves closed.
\<close>

theorem C1_countdown_hands_over_and_ends_after_end_time:
  assumes "zi < length (zones s)" and "timer (zones s ! zi) = Some endTime"
  shows
    "(nowSec now < endTime \<and> i + 1 < length (valves (zones s ! zi))
        \<and> (\<forall>k<length (valves (zones s ! zi)). isOpen (valves (zones s ! zi) ! k) \<longleftrightarrow> k = i)
        \<and> GPIO_ValvePin (valves (zones s ! zi) ! i) \<noteq> None
        \<and> GPIO_ValvePin (valves (zones s ! zi) ! (i + 1)) \<noteq> None
        \<and> valveEndTime endTime (SetDuration (zones s ! zi)) (length (valves (zones s ! zi))) i
              \<le> of_int (nowSec now)
        \<and> of_int (nowSec now)
              < valveEndTime endTime (SetDuration (zones s ! zi)) (length (valves (zones s ! zi))) (i + 1)
      \<longrightarrow> (\<forall>k<length (valves (zones s ! zi)).
             isOpen (valves (zones (zoneRunningTimer zi now s) ! zi) ! k) \<longleftrightarrow> k = i + 1))
     \<and> (nowSec now < endTime
        \<and> (\<forall>k<length (valves (zones s ! zi)). isOpen (valves (zones s ! zi) ! k) \<longrightarrow>
              \<not> (valveEndTime endTime (SetDuration (zones s ! zi)) (length (valves (zones s ! zi))) k
                    \<le> of_int (nowSec now)
                 \<and> k + 1 < length (valves (zones s ! zi))))
      \<longrightarrow> valves (zones (zoneRunningTimer zi now s) ! zi) = valves (zones s ! zi))
     \<and> (nowSec now = endTime \<longrightarrow> zoneRunningTimer zi now s = s)
     \<and> (endTime < nowSec now \<and> enabled (zones s ! zi) \<and> power s
      \<longrightarrow> stopped (zones (zoneRunningTimer zi now s) ! zi))
     \<and> valveEndTime 300 300 3 0 = 100 \<and> valveEndTime 300 300 3 1 = 200
     \<and> valveEndTime 300 300 3 2 = 300
     \<and> (n \<le> 300 \<longrightarrow>
          Active (zones (countdownAt n) ! 0)
          \<and> map isOpen (valves (zones (countdownAt n) ! 0)) = [n < 100, 100 \<le> n \<and> n < 200, 200 \<le> n])
     \<and> \<not> Active (zones (countdownAt 301) ! 0)
     \<and> map isOpen (valves (zones (countdownAt 301) ! 0)) = [False, False, False]"
proof -
  note h = tick_handover[OF assms, of now i, unfolded vopen_def nvalves_def vpin_def]
  have a: "nowSec now < endTime \<and> i + 1 < length (valves (zones s ! zi))
        \<and> (\<forall>k<length (valves (zones s ! zi)). isOpen (valves (zones s ! zi) ! k) \<longleftrightarrow> k = i)
        \<and> GPIO_ValvePin (valves (zones s ! zi) ! i) \<noteq> None
        \<and> GPIO_ValvePin (valves (zones s ! zi) ! (i + 1)) \<noteq> None
        \<and> valveEndTime endTime (SetDuration (zones s ! zi)) (length (valves (zones s ! zi))) i
              \<le> of_int (nowSec now)
        \<and> of_int (nowSec now)
              < valveEndTime endTime (SetDuration (zones s ! zi)) (length (valves (zones s ! zi))) (i + 1)
      \<longrightarrow> (\<forall>k<length (valves (zones s ! zi)).
             isOpen (valves (zones (zoneRunningTimer zi now s) ! zi) ! k) \<longleftrightarrow> k = i + 1)"
    using h by blast
  have b: "nowSec now < endTime
        \<and> (\<forall>k<length (valves (zones s ! zi)). isOpen (valves (zones s ! zi) ! k) \<longrightarrow>
              \<not> (valveEndTime endTime (SetDuration (zones s ! zi)) (length (valves (zones s ! zi))) k
                    \<le> of_int (nowSec now)
                 \<and> k + 1 < length (valves (zones s ! zi))))
      \<longrightarrow> valves (zones (zoneRunningTimer zi now s) ! zi) = valves (zones s ! zi)"
  proof (intro impI, elim conjE)
    assume 1: "nowSec now < endTime"
      and 2: "\<forall>k<length (valves (zones s ! zi)). isOpen (valves (zones s ! zi) ! k) \<longrightarrow>
              \<not> (valveEndTime endTime (SetDuration (zones s ! zi)) (length (valves (zones s ! zi))) k
                    \<le> of_int (nowSec now)
                 \<and> k + 1 < length (valves (zones s ! zi)))"
    have "zoneRunningTimer zi now s
            = updZone zi (\<lambda>z. z\<lparr>RemainingDuration := endTime - nowSec now\<rparr>) s"
      using tick_idle[OF assms 1, unfolded vopen_def nvalves_def] 2 by blast
    then show "valves (zones (zoneRunningTimer zi now s) ! zi) = valves (zones s ! zi)"
      using assms(1) by (simp add: zones_updZone_same)
  qed
  have c: "nowSec now = endTime \<longrightarrow> zoneRunningTimer zi now s = s"
    using zoneRunningTimer_at_end[OF assms] by blast
  have d: "endTime < nowSec now \<and> enabled (zones s ! zi) \<and> power s
      \<longrightarrow> stopped (zones (zoneRunningTimer zi now s) ! zi)"
    using zoneRunningTimer_after_end[OF assms, of now] stopped_deactivateZone[OF assms(1), of now]
    by auto
  have e: "valveEndTime 300 300 3 0 = 100" "valveEndTime 300 300 3 1 = 200"
    "valveEndTime 300 300 3 2 = 300"
    by (simp_all add: valveEndTime_def)
  have f: "n \<le> 300 \<longrightarrow>
          Active (zones (countdownAt n) ! 0)
          \<and> map isOpen (valves (zones (countdownAt n) ! 0)) = [n < 100, 100 \<le> n \<and> n < 200, 200 \<le> n]"
    using countdown_slices[of n] by blast
  show ?thesis
    using a b c d e f countdown_end by blast
qed

text \<open>
  After the callback of second 300 the zone is still active and valve 2 is still open: the
  callback compares the clock with \<open>endTime\<close> by \<^verbatim>\<open><\<close> to count down and by
  \<^verbatim>\<open>>\<close> to stop, so at equality it does neither.
\<close>

theorem C1_still_active_at_end_time_counterexample:
  "Active (zones (countdownAt 300) ! 0)
   \<and> map isOpen (valves (zones (countdownAt 300) ! 0)) = [False, False, True]"
  using countdown_slices[of 300] by simp

theorem C1_countdown_hands_over_and_ends_after_end_time_witness:
  "0 < length (zones (countdownAt 99)) \<and> timer (zones (countdownAt 99) ! 0) = Some 300
   \<and> nowSec 100000 < 300 \<and> length (valves (zones (countdownAt 99) ! 0)) = 3
   \<and> map isOpen (valves (zones (countdownAt 99) ! 0)) = [True, False, False]
   \<and> GPIO_ValvePin (valves (zones (countdownAt 99) ! 0) ! 0) \<noteq> None
   \<and> GPIO_ValvePin (valves (zones (countdownAt 99) ! 0) ! 1) \<noteq> None
   \<and> valveEndTime 300 (SetDuration (zones (countdownAt 99) ! 0)) 3 0 \<le> of_int (nowSec 100000)
   \<and> of_int (nowSec 100000) < valveEndTime 300 (SetDuration (zones (countdownAt 99) ! 0)) 3 1
   \<and> \<not> isOpen (valves (zones (zoneRunningTimer 0 100000 (countdownAt 99)) ! 0) ! 0)
   \<and> isOpen (valves (zones (zoneRunningTimer 0 100000 (countdownAt 99)) ! 0) ! 1)
   \<and> \<not> isOpen (valves (zones (zoneRunningTimer 0 100000 (countdownAt 99)) ! 0) ! 2)
   \<and> (100::nat) \<le> 300
   \<and> Active (zones (countdownAt 100) ! 0)
   \<and> map isOpen (valves (zones (countdownAt 100) ! 0)) = [False, True, False]"
proof -
  have r: "running 0 (countdownAt 99)" using countdown_running[of 99] by (simp add: slice_def)
  note f = running_facts[OF r]
  have l: "length (valves (zones (countdownAt 99) ! 0)) = 3" using f(6) by (simp add: nvalves_def)
  have m: "map isOpen (valves (zones (countdownAt 99) ! 0)) = [True, False, False]"
    using valves_of_running[OF r] by simp
  have op: "\<forall>k<length (valves (zones (countdownAt 99) ! 0)).
              isOpen (valves (zones (countdownAt 99) ! 0) ! k) \<longleftrightarrow> k = 0"
  proof (intro allI impI)
    fix k assume "k < length (valves (zones (countdownAt 99) ! 0))"
    then have "k < 3" using l by simp
    then show "isOpen (valves (zones (countdownAt 99) ! 0) ! k) \<longleftrightarrow> k = 0"
      using r by (simp add: running_def vopen_def)
  qed
  have p: "GPIO_ValvePin (valves (zones (countdownAt 99) ! 0) ! 0) \<noteq> None"
          "GPIO_ValvePin (valves (zones (countdownAt 99) ! 0) ! 1) \<noteq> None"
    using f(7)[of 0] f(7)[of 1] by (simp_all add: vpin_def)
  have t: "nowSec 100000 = 100" by (simp add: nowSec_def)
  have v: "valveEndTime 300 (SetDuration (zones (countdownAt 99) ! 0)) 3 0 \<le> of_int (nowSec 100000)"
          "of_int (nowSec 100000) < valveEndTime 300 (SetDuration (zones (countdownAt 99) ! 0)) 3 1"
    by (simp_all add: f(5) t valveEndTime_def)
  note inst = C1_countdown_hands_over_and_ends_after_end_time[OF f(2) f(3), of 100000 0 100]
  have pre: "nowSec 100000 < 300 \<and> 0 + 1 < length (valves (zones (countdownAt 99) ! 0))
        \<and> (\<forall>k<length (valves (zones (countdownAt 99) ! 0)).
              isOpen (valves (zones (countdownAt 99) ! 0) ! k) \<longleftrightarrow> k = 0)
        \<and> GPIO_ValvePin (valves (zones (countdownAt 99) ! 0) ! 0) \<noteq> None
        \<and> GPIO_ValvePin (valves (zones (countdownAt 99) ! 0) ! (0 + 1)) \<noteq> None
        \<and> valveEndTime 300 (SetDuration (zones (countdownAt 99) ! 0))
              (length (valves (zones (countdownAt 99) ! 0))) 0 \<le> of_int (nowSec 100000)
        \<and> of_int (nowSec 100000)
              < valveEndTime 300 (SetDuration (zones (countdownAt 99) ! 0))
                  (length (valves (zones (countdownAt 99) ! 0))) (0 + 1)"
    using op p v by (simp add: t l)
  have after: "\<forall>k<length (valves (zones (countdownAt 99) ! 0)).
             isOpen (valves (zones (zoneRunningTimer 0 100000 (countdownAt 99)) ! 0) ! k) \<longleftrightarrow> k = 0 + 1"
    using inst pre by blast
  have o: "\<not> isOpen (valves (zones (zoneRunningTimer 0 100000 (countdownAt 99)) ! 0) ! 0)"
          "isOpen (valves (zones (zoneRunningTimer 0 100000 (countdownAt 99)) ! 0) ! 1)"
          "\<not> isOpen (valves (zones (zoneRunningTimer 0 100000 (countdownAt 99)) ! 0) ! 2)"
    using after l by simp_all
  have sc: "Active (zones (countdownAt 100) ! 0)"
           "map isOpen (valves (zones (countdownAt 100) ! 0)) = [False, True, False]"
    using inst by simp_all
  show ?thesis
    using f(2) f(3) l m p v o sc by (simp add: t)
qed



text \<open>
  C3 (leak flag in the scenario of the spec). In \<open>leakScenario\<close> no zone runs and
  the last valve closed at second 80. The flow sample of second 100 leaves a buffer of 30
  samples of which 25 are non-zero, 20 s after that close, and the leak flag stays
  false: the guard compares the seconds since the close with \<open>WATERLEAKTIMEOUT\<close>,
  which is 10000 and documented as milliseconds.
\<close>

theorem C3_leak_not_raised_after_20s:
  "numberRunningZones leakScenario = 0
   \<and> nowSec 100000 - lastValveClose leakScenario = 20
   \<and> leakSensorService leakScenario \<noteq> None
   \<and> leakDetected leakScenario = False
   \<and> length (flowData (exec (FlowEvent (sample 100 (1 / 10))) 100000 leakScenario)) = 30
   \<and> nonZeroVolume (flowData (exec (FlowEvent (sample 100 (1 / 10))) 100000 leakScenario)) = 25
   \<and> leakDetected (exec (FlowEvent (sample 100 (1 / 10))) 100000 leakScenario) = False"
  by code_simp

text \<open>
  C4 (when the leak flag changes). A flow event that is processed while a zone runs
  leaves the flag as it was. A flow event that sets the flag finds no zone running and
  more than 80 percent of the buffered samples non-zero; one that clears it finds no zone
  running and no buffered sample non-zero. No other step changes the flag.
\<close>

theorem C4_leak_flag_changes:
  "(numberRunningZones s \<noteq> 0 \<longrightarrow> leakDetected (exec (FlowEvent f) now s) = leakDetected s)
   \<and> (\<not> leakDetected s \<and> leakDetected (exec (FlowEvent f) now s) \<longrightarrow>
        numberRunningZones s = 0
        \<and> nonZeroPercent (flowData (exec (FlowEvent f) now s)) > 80)
   \<and> (leakDetected s \<and> \<not> leakDetected (exec (FlowEvent f) now s) \<longrightarrow>
        numberRunningZones s = 0
        \<and> nonZeroPercent (flowData (exec (FlowEvent f) now s)) = 0)
   \<and> ((\<forall>g. a \<noteq> FlowEvent g) \<longrightarrow> leakDetected (exec a now s) = leakDetected s)"
proof -
  define s0 where
    "s0 = s\<lparr>zones := map (\<lambda>z. z\<lparr>valves := map (valveFlowListener f) (valves z)\<rparr>) (zones s)\<rparr>"
  have e: "exec (FlowEvent f) now s = onFlow f now s0" by (simp add: emit_FLOWEVENT s0_def)
  have l: "leakDetected s0 = leakDetected s" by (simp add: s0_def)
  have n: "numberRunningZones s0 = numberRunningZones s" by (simp add: s0_def)
  have fd: "flowData (onFlow f now s0) = pushFlow f (flowData s0)" by (rule flowData_onFlow)
  have 1: "numberRunningZones s \<noteq> 0 \<longrightarrow> leakDetected (exec (FlowEvent f) now s) = leakDetected s"
    unfolding e using onFlow_running[of s0 f now] l n by simp
  have 2: "\<not> leakDetected s \<and> leakDetected (exec (FlowEvent f) now s) \<longrightarrow>
        numberRunningZones s = 0 \<and> nonZeroPercent (flowData (exec (FlowEvent f) now s)) > 80"
    unfolding e fd using onFlow_raised[of s0 f now] l n by simp
  have 3: "leakDetected s \<and> \<not> leakDetected (exec (FlowEvent f) now s) \<longrightarrow>
        numberRunningZones s = 0 \<and> nonZeroPercent (flowData (exec (FlowEvent f) now s)) = 0"
    unfolding e fd using onFlow_cleared[of s0 f now] l n by simp
  have 4: "(\<forall>g. a \<noteq> FlowEvent g) \<longrightarrow> leakDetected (exec a now s) = leakDetected s"
    using leakDetected_other_steps by blast
  show ?thesis using 1 2 3 4 by blast
qed

theorem C4_leak_flag_changes_witness:
  "numberRunningZones handoffState \<noteq> 0
   \<and> leakDetected (exec (FlowEvent (sample 101 (1 / 10))) 101000 handoffState)
       = leakDetected handoffState
   \<and> \<not> leakDetected leakFreeState \<and> leakDetected leakRaisedState
   \<and> numberRunningZones leakFreeState = 0
   \<and> nonZeroPercent (flowData leakRaisedState) > 80
   \<and> \<not> leakDetected (exec (FlowEvent (sample 32 0)) 32000 leakRaisedState)
   \<and> numberRunningZones leakRaisedState = 0
   \<and> nonZeroPercent (flowData (exec (FlowEvent (sample 32 0)) 32000 leakRaisedState)) = 0
   \<and> leakDetected (exec (SetZoneActive 1 (JNum 1)) 32000 leakRaisedState)
       = leakDetected leakRaisedState"
proof -
  have r: "numberRunningZones handoffState \<noteq> 0" by code_simp
  have a: "\<not> leakDetected leakFreeState" by code_simp
  have b: "leakDetected leakRaisedState" by code_simp
  have c: "\<not> leakDetected (exec (FlowEvent (sample 32 0)) 32000 leakRaisedState)" by code_simp
  have b': "leakDetected (exec (FlowEvent (sample 1 (1 / 10))) 1000 leakFreeState)"
    using b by (simp add: leakRaisedState_def)
  have d: "\<forall>g. SetZoneActive 1 (JNum 1) \<noteq> FlowEvent g" by simp
  note t1 = C4_leak_flag_changes[of handoffState "sample 101 (1 / 10)" 101000 PauseTimer]
  note t2 = C4_leak_flag_changes[of leakFreeState "sample 1 (1 / 10)" 1000 PauseTimer]
  note t3 = C4_leak_flag_changes[of leakRaisedState "sample 32 0" 32000 "SetZoneActive 1 (JNum 1)"]
  have p1: "leakDetected (exec (FlowEvent (sample 101 (1 / 10))) 101000 handoffState)
       = leakDetected handoffState" using t1 r by blast
  have p2: "numberRunningZones leakFreeState = 0 \<and> nonZeroPercent (flowData leakRaisedState) > 80"
    using t2 a b' unfolding leakRaisedState_def by blast
  have p3: "numberRunningZones leakRaisedState = 0
     \<and> nonZeroPercent (flowData (exec (FlowEvent (sample 32 0)) 32000 leakRaisedState)) = 0"
    using t3 b c by blast
  have p4: "leakDetected (exec (SetZoneActive 1 (JNum 1)) 32000 leakRaisedState)
       = leakDetected leakRaisedState"
    using t3 d by blast
  show ?thesis using r a b c p1 p2 p3 p4 by blast
qed

text \<open>
  C5 (a system request with a request for every enabled zone), as amended. When the batch
  holds exactly one system request and as many zone requests as there are enabled zones,
  and these are at least two, the timeout calls \<^verbatim>\<open>setPower\<close> once, with the value of
  the system request, and calls \<^verbatim>\<open>setZoneActive\<close> for no request: every zone request
  only schedules its cosmetic revert. The calls are listed in the order of the requests.
\<close>

theorem C5_system_request_alone_runs:
  assumes "\<forall>ac\<in>set (activeCheck s). takeaction ac"
      and "length (filter isSystemRequest (activeCheck s)) = 1"
      and "length (filter isValveRequest (activeCheck s)) = numberEnabledZones s"
      and "2 \<le> numberEnabledZones s"
  shows "snd (activeCheckTimeout now s)
           = map (\<lambda>ac. if isValveRequest ac then ScheduleRevert (ac_context ac)
                        else CallSetPower (ac_value ac)) (activeCheck s)
         \<and> length (filter (\<lambda>c. \<exists>v. c = CallSetPower v) (snd (activeCheckTimeout now s))) = 1
         \<and> (\<forall>c v. CallSetZoneActive c v \<notin> set (snd (activeCheckTimeout now s)))"
proof -
  let ?g = "\<lambda>ac. if isValveRequest ac then ScheduleRevert (ac_context ac)
                   else CallSetPower (ac_value ac)"
  have sc: "length (filter (\<lambda>ac. ac_type ac = TypeSystem \<or> ac_type ac = TypeSwitch) (activeCheck s)) = 1"
    using assms(2) by (simp add: isSystemRequest_def[abs_def])
  have vc: "length (filter (\<lambda>ac. ac_type ac = TypeValve) (activeCheck s)) = numberEnabledZones s"
    using assms(3) by (simp add: isValveRequest_def[abs_def])
  have "snd (fold (processRequest 1 (numberEnabledZones s) now) (activeCheck s) (s, []))
          = [] @ map ?g (activeCheck s)"
    using assms(1,4) by (intro batch_fold) simp_all
  then have calls: "snd (activeCheckTimeout now s) = map ?g (activeCheck s)"
    by (simp add: activeCheckTimeout_def Let_def sc vc)
  have "filter (\<lambda>c. \<exists>v. c = CallSetPower v) (map ?g xs)
          = map ?g (filter isSystemRequest xs)" for xs
    using request_kinds by (induction xs) auto
  then have one: "length (filter (\<lambda>c. \<exists>v. c = CallSetPower v) (snd (activeCheckTimeout now s))) = 1"
    using calls assms(2) by simp
  have none: "\<forall>c v. CallSetZoneActive c v \<notin> set (snd (activeCheckTimeout now s))"
    unfolding calls by auto
  show ?thesis using calls one none by blast
qed

text \<open>
  The claim as stated fails for one enabled zone: with one system request and one zone
  request the filter for a lone zone request drops the system request as well, and the
  timeout calls neither \<^verbatim>\<open>setPower\<close> nor \<^verbatim>\<open>setZoneActive\<close>.
\<close>

theorem C5_single_zone_counterexample:
  "numberEnabledZones singleZoneBatch = 1
   \<and> map ac_type (activeCheck singleZoneBatch) = [TypeSystem, TypeValve]
   \<and> power singleZoneBatch = False
   \<and> snd (activeCheckTimeout 60500 singleZoneBatch) = [ScheduleRevert (DeviceZone 0)]
   \<and> power (fst (activeCheckTimeout 60500 singleZoneBatch)) = False"
  by code_simp

theorem C5_system_request_alone_runs_witness:
  "list_all takeaction (activeCheck twoZoneBatch)
   \<and> length (filter isSystemRequest (activeCheck twoZoneBatch)) = 1
   \<and> length (filter isValveRequest (activeCheck twoZoneBatch)) = numberEnabledZones twoZoneBatch
   \<and> 2 \<le> numberEnabledZones twoZoneBatch
   \<and> snd (activeCheckTimeout 60500 twoZoneBatch)
       = [ScheduleRevert (DeviceZone 0), CallSetPower (JNum 1), ScheduleRevert (DeviceZone 1)]
   \<and> power (fst (activeCheckTimeout 60500 twoZoneBatch)) = True"
proof -
  have a: "\<forall>ac\<in>set (activeCheck twoZoneBatch). takeaction ac" by code_simp
  have b: "length (filter isSystemRequest (activeCheck twoZoneBatch)) = 1" by code_simp
  have c: "length (filter isValveRequest (activeCheck twoZoneBatch)) = numberEnabledZones twoZoneBatch"
    by code_simp
  have d: "2 \<le> numberEnabledZones twoZoneBatch" by code_simp
  have m: "map (\<lambda>ac. if isValveRequest ac then ScheduleRevert (ac_context ac)
                        else CallSetPower (ac_value ac)) (activeCheck twoZoneBatch)
       = [ScheduleRevert (DeviceZone 0), CallSetPower (JNum 1), ScheduleRevert (DeviceZone 1)]"
    by code_simp
  have p: "power (fst (activeCheckTimeout 60500 twoZoneBatch)) = True" by code_simp
  show ?thesis
    using C5_system_request_alone_runs[OF a b c d, of 60500] a b c d m p
    by (simp add: list_all_iff)
qed

text \<open>
  C6 (resuming from a pause). In \<open>pausedSystem\<close> the pause ends at second 1000. The
  tick at second 1000 switches the power on and leaves \<open>pauseTimeout\<close> at 1000; the
  tick at second 1005 therefore runs the power-on path again, also after the power has
  been switched off in between.
\<close>

theorem C6_pause_not_cleared:
  "power (pauseTimer 1000000 pausedSystem) = True
   \<and> pauseTimeout (pauseTimer 1000000 pausedSystem) = 1000
   \<and> log (pauseTimer 1005000 (pauseTimer 1000000 pausedSystem))
       = [PowerTurned True, WateringResumed, PowerTurned True, WateringResumed]
   \<and> power (pauseTimer 1005000 (setPower (JBool False) 1002000
               (pauseTimer 1000000 pausedSystem))) = True"
  by code_simp






text \<open>
  C9 (tank percentage within 0..100). For \<open>narrowTank\<close>, whose usable range equals
  the sensor's minimum range of 200 mm, a reading of 50 cm gives the percentage
  \<open>NaN\<close>: \<open>scaleValue\<close> divides 0 by 0 and both clamps compare false.
\<close>

theorem C9_percentage_NaN:
  "readingSucceeds [Distance (Fin 50)] narrowTank
   \<and> percentage (readUsonicSensor [Distance (Fin 50)] narrowTank) = Some NaN"
  by code_simp

text \<open>
  C10 (aggregate level). A successful reading of the tank of \<open>demoConfig\<close> stores
  its percentage and emits the level event, and the \<open>WaterLevel\<close> characteristic
  stays undefined: \<open>messageServices\<close> compares the tag with
  \<open>Valve_WATERLEVEL\<close>, which is undefined. The sum itself is \<open>NaN\<close> as soon as
  one tank has no reading yet.
\<close>

theorem C10_level_not_reported:
  "readingSucceeds [Distance (Fin 50)] (tanks (addServices demoConfig) ! 0)
   \<and> percentage (tanks (tankReading 0 [Distance (Fin 50)] 60000 (addServices demoConfig)) ! 0)
       = Some (Fin (12700 / 157))
   \<and> WaterLevel (tankReading 0 [Distance (Fin 50)] 60000 (addServices demoConfig)) = None
   \<and> totalPercentage
         [readUsonicSensor [Distance (Fin 50)] (tanks (addServices demoConfig) ! 0),
          tanks (addServices demoConfig) ! 0] = NaN"
  by code_simp

end
